theory Spec2Isabelle
  imports Main "HOL-Library.Word"
begin

unbundle bit_operations_syntax

section \<open>Data model of feature/nodelist/networkstatus.c\<close>

text \<open>
  The consensus text and the cache files are byte strings (\<open>8 word list\<close>); digests,
  names and paths are C strings. \<open>time_t\<close> is the signed integer of the platform; it is
  embedded as \<open>int\<close>, so the arithmetic of the source on times never wraps here.
  Records hold the fields of the C structs that the functions below read or write.
\<close>

type_synonym bytes = "8 word list"
type_synonym time_t = int

datatype consensus_flavor = FLAV_NS | FLAV_MICRODESC

datatype digest_algorithm = DIGEST_SHA1 | DIGEST_SHA256

datatype networkstatus_type = NS_TYPE_VOTE | NS_TYPE_CONSENSUS | NS_TYPE_OPINION

record common_digests_t =
  d_sha1 :: string
  d_sha256 :: string

record document_signature_t =
  sig_identity_digest :: string
  sig_signing_key_digest :: string
  alg :: digest_algorithm
  good_signature :: bool
  bad_signature :: bool
  signature :: "string option"

record networkstatus_voter_info_t =
  nickname :: string
  identity_digest :: string
  sigs :: "document_signature_t list"

record networkstatus_t =
  ns_type :: networkstatus_type
  flavor :: consensus_flavor
  valid_after :: time_t
  fresh_until :: time_t
  valid_until :: time_t
  dist_seconds :: int
  digests :: common_digests_t
  voters :: "networkstatus_voter_info_t list"
  net_params :: "string list option"

record authority_cert_t =
  cert_identity_digest :: string
  signing_key :: string
  signing_key_digest :: string
  expires :: time_t

record dir_server_t =
  is_v3_dirinfo :: bool
  v3_identity_digest :: string

record consensus_waiting_for_certs_t =
  consensus :: "networkstatus_t option"
  set_at :: time_t
  dl_failed :: int

text \<open>
  The process-wide variables of the file: the two current consensuses, the array
  \<open>consensus_waiting_for_certs\<close>, the array \<open>consensus_dl_status\<close> (its element type
  \<open>download_status_t\<close> is declared outside this file and stays a type parameter), and
  the files of the disk, a map from path to content.
\<close>

record 'dls ns_state =
  current_ns_consensus :: "networkstatus_t option"
  current_md_consensus :: "networkstatus_t option"
  consensus_waiting_for_certs :: "consensus_flavor \<Rightarrow> consensus_waiting_for_certs_t"
  consensus_dl_status :: "consensus_flavor \<Rightarrow> 'dls"
  files :: "string \<rightharpoonup> bytes"

text \<open>
  Everything the file calls but does not define is a field of the environment: the
  clocks, the options, the parser of ns_parse.c, the protocol-version gate (true when
  \<open>handle_missing_protocol_warning\<close> would call \<open>exit(1)\<close>), the trusted directory
  servers of dirlist.c, the certificate store of authcert.c, the RSA primitives, the
  cache directory, the constant \<open>OLD_ROUTER_DESC_MAX_AGE\<close> of or.h and the
  download-schedule updates of dlstatus.c.
\<close>

record 'dls env =
  approx_time :: time_t
  time_now :: time_t
  we_use_microdescriptors_for_circuits :: bool
  authdir_mode_v3 :: bool
  directory_caches_dir_info :: bool
  FetchUselessDescriptors :: bool
  networkstatus_parse_vote_from_string :: "bytes \<Rightarrow> networkstatus_t option"
  protocols_should_exit :: "networkstatus_t \<Rightarrow> bool"
  trusted_dir_servers :: "dir_server_t list"
  authority_cert_get_by_digests :: "string \<Rightarrow> string \<Rightarrow> authority_cert_t option"
  authority_cert_is_denylisted :: "authority_cert_t \<Rightarrow> bool"
  authority_cert_dl_looks_uncertain :: "string \<Rightarrow> bool"
  crypto_pk_get_digest :: "string \<Rightarrow> string option"
  crypto_pk_public_checksig :: "string \<Rightarrow> string option \<Rightarrow> string option"
  cachedir :: string
  OLD_ROUTER_DESC_MAX_AGE :: int
  tor_parse_long :: "string \<Rightarrow> int option"
  download_status_failed :: "'dls \<Rightarrow> int \<Rightarrow> 'dls"
  download_status_reset :: "'dls \<Rightarrow> 'dls"

datatype failure = Assertion_failed | Process_exit | Null_filename

section \<open>Flavors and the current consensus\<close>

definition networkstatus_get_flavor_name :: "consensus_flavor \<Rightarrow> string" where
  "networkstatus_get_flavor_name flav =
     (case flav of FLAV_NS \<Rightarrow> ''ns'' | FLAV_MICRODESC \<Rightarrow> ''microdesc'')"

definition networkstatus_parse_flavor_name :: "string \<Rightarrow> consensus_flavor option" where
  "networkstatus_parse_flavor_name flavname =
     (if flavname = ''ns'' then Some FLAV_NS
      else if flavname = ''microdesc'' then Some FLAV_MICRODESC
      else None)"

text \<open>
  Modelled from the spec: \<open>usable_consensus_flavor\<close> (microdesc.c) is not in this file;
  the usable flavor is the one the local policy uses for building circuits.
\<close>

definition usable_consensus_flavor :: "'dls env \<Rightarrow> consensus_flavor" where
  "usable_consensus_flavor e =
     (if we_use_microdescriptors_for_circuits e then FLAV_MICRODESC else FLAV_NS)"

definition networkstatus_get_latest_consensus ::
  "'dls env \<Rightarrow> 'dls ns_state \<Rightarrow> networkstatus_t option" where
  "networkstatus_get_latest_consensus e s =
     (if we_use_microdescriptors_for_circuits e then current_md_consensus s
      else current_ns_consensus s)"

definition networkstatus_get_latest_consensus_by_flavor ::
  "'dls ns_state \<Rightarrow> consensus_flavor \<Rightarrow> networkstatus_t option" where
  "networkstatus_get_latest_consensus_by_flavor s f =
     (case f of FLAV_NS \<Rightarrow> current_ns_consensus s
              | FLAV_MICRODESC \<Rightarrow> current_md_consensus s)"

section \<open>Consensus parameters\<close>

text \<open>
  \<open>get_net_param_from_list\<close>: the loop keeps the first entry that starts with
  \<open>param_name\<close>, has \<open>=\<close> right after it and whose value \<open>tor_parse_long\<close> accepts
  (base 10, between \<open>INT32_MIN\<close> and \<open>INT32_MAX\<close>). The \<open>int32_t\<close> values are embedded
  as integers: the function compares them and does no arithmetic on them.
\<close>

definition strcmpstart :: "string \<Rightarrow> string \<Rightarrow> bool" where
  "strcmpstart p name = (take (length name) p = name)"

fun net_param_loop :: "(string \<Rightarrow> int option) \<Rightarrow> string \<Rightarrow> int \<Rightarrow> string list \<Rightarrow> int" where
  "net_param_loop parse param_name res [] = res"
| "net_param_loop parse param_name res (p # ps) =
     (if strcmpstart p param_name \<and> length param_name < length p
         \<and> p ! length param_name = CHR ''=''
      then (case parse (drop (length param_name + 1) p) of
              Some v \<Rightarrow> v
            | None \<Rightarrow> net_param_loop parse param_name res ps)
      else net_param_loop parse param_name res ps)"

definition get_net_param_from_list ::
  "(string \<Rightarrow> int option) \<Rightarrow> string list \<Rightarrow> string \<Rightarrow> int \<Rightarrow> int \<Rightarrow> int \<Rightarrow> failure + int" where
  "get_net_param_from_list parse params param_name default_val min_val max_val =
     (if \<not> max_val > min_val then Inl Assertion_failed
      else if \<not> min_val \<le> default_val then Inl Assertion_failed
      else if \<not> max_val \<ge> default_val then Inl Assertion_failed
      else
        let res = net_param_loop parse param_name default_val params;
            res = (if res < min_val then min_val
                   else if res > max_val then max_val
                   else res)
        in if \<not> res \<ge> min_val then Inl Assertion_failed
           else if \<not> res \<le> max_val then Inl Assertion_failed
           else Inr res)"

definition networkstatus_get_param ::
  "'dls env \<Rightarrow> 'dls ns_state \<Rightarrow> networkstatus_t option \<Rightarrow> string \<Rightarrow> int \<Rightarrow> int \<Rightarrow> int
     \<Rightarrow> failure + int" where
  "networkstatus_get_param e s ns param_name default_val min_val max_val =
     (let ns = (case ns of None \<Rightarrow> networkstatus_get_latest_consensus e s
                         | Some n \<Rightarrow> Some n)
      in case ns of
           None \<Rightarrow> Inr default_val
         | Some n \<Rightarrow>
             (case net_params n of
                None \<Rightarrow> Inr default_val
              | Some params \<Rightarrow>
                  get_net_param_from_list (tor_parse_long e) params param_name
                    default_val min_val max_val))"

text \<open>
  Modelled from the spec: \<open>tor_parse_long\<close> (lib/string/parse_int.c) is not under src/.
  The spec (4.H) says the value is parsed as a signed 32-bit integer: an optional sign,
  then decimal digits and nothing else, the value within the 32-bit range.
\<close>

fun parse_digits :: "string \<Rightarrow> nat \<Rightarrow> nat option" where
  "parse_digits [] acc = Some acc"
| "parse_digits (c # cs) acc =
     (if 48 \<le> (of_char c :: nat) \<and> (of_char c :: nat) \<le> 57
      then parse_digits cs (acc * 10 + (of_char c - 48))
      else None)"

definition in_int32 :: "int \<Rightarrow> int option" where
  "in_int32 v = (if - 2147483648 \<le> v \<and> v \<le> 2147483647 then Some v else None)"

definition signed_digits :: "bool \<Rightarrow> string \<Rightarrow> int option" where
  "signed_digits negative ds =
     (if ds = [] then None
      else (case parse_digits ds 0 of
              None \<Rightarrow> None
            | Some n \<Rightarrow> in_int32 (if negative then - int n else int n)))"

definition parse_int32 :: "string \<Rightarrow> int option" where
  "parse_int32 s =
     (case s of
        [] \<Rightarrow> None
      | c # cs \<Rightarrow>
          (if c = CHR ''-'' then signed_digits True cs
           else if c = CHR ''+'' then signed_digits False cs
           else signed_digits False (c # cs)))"

section \<open>Waiting for certificates, bootstrapping\<close>

definition DELAY_WHILE_FETCHING_CERTS :: int where
  "DELAY_WHILE_FETCHING_CERTS = 20 * 60"

definition MIN_DELAY_FOR_FETCH_CERT_STATUS_FAILURE :: int where
  "MIN_DELAY_FOR_FETCH_CERT_STATUS_FAILURE = 1 * 60"

text \<open>
  \<open>check_consensus_waiting_for_certs\<close> returns 1 while the parked consensus of the
  flavor should still wait, 0 otherwise; it may fail the schedule \<open>dls\<close> handed in and
  set \<open>dl_failed\<close>. The result is the return value, the schedule and the state. The
  assertion that the flavor is a known one holds for every value of the datatype.
\<close>

definition check_consensus_waiting_for_certs ::
  "'dls env \<Rightarrow> 'dls ns_state \<Rightarrow> consensus_flavor \<Rightarrow> time_t \<Rightarrow> 'dls
     \<Rightarrow> int \<times> 'dls \<times> 'dls ns_state" where
  "check_consensus_waiting_for_certs e s flav now dls =
     (let waiting = consensus_waiting_for_certs s flav in
      case consensus waiting of
        None \<Rightarrow> (0, dls, s)
      | Some c \<Rightarrow>
          if set_at waiting + DELAY_WHILE_FETCHING_CERTS > now \<and> valid_until c > now
          then (1, dls, s)
          else if dl_failed waiting = 0 then
            (0,
             if set_at waiting + MIN_DELAY_FOR_FETCH_CERT_STATUS_FAILURE > now
             then download_status_failed e dls 0 else dls,
             s\<lparr>consensus_waiting_for_certs :=
                 (consensus_waiting_for_certs s)(flav := waiting\<lparr>dl_failed := 1\<rparr>)\<rparr>)
          else (0, dls, s))"

definition consensus_is_waiting_for_certs :: "'dls env \<Rightarrow> 'dls ns_state \<Rightarrow> int" where
  "consensus_is_waiting_for_certs e s =
     (case consensus (consensus_waiting_for_certs s (usable_consensus_flavor e)) of
        Some c \<Rightarrow> 1 | None \<Rightarrow> 0)"

definition REASONABLY_LIVE_TIME :: int where
  "REASONABLY_LIVE_TIME = 24 * 60 * 60"

definition networkstatus_valid_after_is_reasonably_live :: "time_t \<Rightarrow> time_t \<Rightarrow> bool" where
  "networkstatus_valid_after_is_reasonably_live va now = (now \<ge> va - REASONABLY_LIVE_TIME)"

definition networkstatus_valid_until_is_reasonably_live :: "time_t \<Rightarrow> time_t \<Rightarrow> bool" where
  "networkstatus_valid_until_is_reasonably_live vu now = (now \<le> vu + REASONABLY_LIVE_TIME)"

definition networkstatus_consensus_reasonably_live :: "networkstatus_t \<Rightarrow> time_t \<Rightarrow> bool" where
  "networkstatus_consensus_reasonably_live c now =
     (networkstatus_valid_after_is_reasonably_live (valid_after c) now \<and>
      networkstatus_valid_until_is_reasonably_live (valid_until c) now)"

definition networkstatus_get_reasonably_live_consensus ::
  "'dls ns_state \<Rightarrow> time_t \<Rightarrow> consensus_flavor \<Rightarrow> networkstatus_t option" where
  "networkstatus_get_reasonably_live_consensus s now flav =
     (case networkstatus_get_latest_consensus_by_flavor s flav of
        None \<Rightarrow> None
      | Some c \<Rightarrow> if networkstatus_consensus_reasonably_live c now then Some c else None)"

definition networkstatus_consensus_is_bootstrapping ::
  "'dls env \<Rightarrow> 'dls ns_state \<Rightarrow> time_t \<Rightarrow> int" where
  "networkstatus_consensus_is_bootstrapping e s now =
     (if networkstatus_get_reasonably_live_consensus s now (usable_consensus_flavor e) \<noteq> None
      then 0
      else if consensus_is_waiting_for_certs e s \<noteq> 0 then 0
      else 1)"

section \<open>Checking the signatures of a consensus\<close>

text \<open>
  Modelled from the spec: \<open>get_n_authorities\<close> and
  \<open>trusteddirserver_get_by_v3_auth_digest\<close> (dirlist.c) are not under src/. The spec
  (4.C) takes N as the number of recognized v3 authorities and recognizes a voter when
  its identity digest is that of a known v3 authority: both read the list of trusted
  directory servers and keep those of type \<open>V3_DIRINFO\<close>.
\<close>

definition get_n_authorities :: "'dls env \<Rightarrow> int" where
  "get_n_authorities e = int (length (filter is_v3_dirinfo (trusted_dir_servers e)))"

definition trusteddirserver_get_by_v3_auth_digest ::
  "'dls env \<Rightarrow> string \<Rightarrow> dir_server_t option" where
  "trusteddirserver_get_by_v3_auth_digest e d =
     find (\<lambda>ds. v3_identity_digest ds = d \<and> is_v3_dirinfo ds) (trusted_dir_servers e)"

definition DIGEST_LEN :: nat where
  "DIGEST_LEN = 20"

definition DIGEST256_LEN :: nat where
  "DIGEST256_LEN = 32"

definition digest_of :: "common_digests_t \<Rightarrow> digest_algorithm \<Rightarrow> string" where
  "digest_of ds a = (case a of DIGEST_SHA1 \<Rightarrow> d_sha1 ds | DIGEST_SHA256 \<Rightarrow> d_sha256 ds)"

text \<open>
  \<open>networkstatus_check_document_signature\<close>: -1 when the certificate does not match
  the signature; otherwise 0, with the good or the bad flag set on the signature.
  \<open>crypto_pk_public_checksig\<close> gives the recovered bytes, or nothing on error.
\<close>

definition networkstatus_check_document_signature ::
  "'dls env \<Rightarrow> networkstatus_t \<Rightarrow> document_signature_t \<Rightarrow> authority_cert_t
     \<Rightarrow> int \<times> document_signature_t" where
  "networkstatus_check_document_signature e c sg cert =
     (let dlen = (if alg sg = DIGEST_SHA1 then DIGEST_LEN else DIGEST256_LEN) in
      case crypto_pk_get_digest e (signing_key cert) of
        None \<Rightarrow> (- 1, sg)
      | Some key_digest \<Rightarrow>
          if sig_signing_key_digest sg \<noteq> key_digest
             \<or> sig_identity_digest sg \<noteq> cert_identity_digest cert
          then (- 1, sg)
          else if authority_cert_is_denylisted e cert
          then (0, sg\<lparr>bad_signature := True\<rparr>)
          else
            (case crypto_pk_public_checksig e (signing_key cert) (signature sg) of
               None \<Rightarrow> (0, sg\<lparr>bad_signature := True\<rparr>)
             | Some signed_digest \<Rightarrow>
                 if length signed_digest < dlen
                    \<or> take dlen signed_digest \<noteq> take dlen (digest_of (digests c) (alg sg))
                 then (0, sg\<lparr>bad_signature := True\<rparr>)
                 else (0, sg\<lparr>good_signature := True\<rparr>)))"

record sig_tally =
  good_here :: int
  bad_here :: int
  unknown_here :: int
  missing_key_here :: int
  dl_failed_key_here :: int

definition note_missing_key :: "'dls env \<Rightarrow> document_signature_t \<Rightarrow> sig_tally \<Rightarrow> sig_tally" where
  "note_missing_key e sg t =
     (let t = t\<lparr>missing_key_here := missing_key_here t + 1\<rparr> in
      if authority_cert_dl_looks_uncertain e (sig_identity_digest sg)
      then t\<lparr>dl_failed_key_here := dl_failed_key_here t + 1\<rparr> else t)"

definition count_flags :: "document_signature_t \<Rightarrow> sig_tally \<Rightarrow> sig_tally" where
  "count_flags sg t =
     (if good_signature sg then t\<lparr>good_here := good_here t + 1\<rparr>
      else if bad_signature sg then t\<lparr>bad_here := bad_here t + 1\<rparr>
      else t)"

text \<open>The body of the inner loop, for one signature of one voter.\<close>

definition check_one_sig ::
  "'dls env \<Rightarrow> networkstatus_t \<Rightarrow> networkstatus_voter_info_t \<Rightarrow> sig_tally
     \<Rightarrow> document_signature_t \<Rightarrow> failure + (sig_tally \<times> document_signature_t)" where
  "check_one_sig e c voter t sg =
     (if \<not> good_signature sg \<and> \<not> bad_signature sg \<and> signature sg \<noteq> None then
        (let is_v3_auth =
               (trusteddirserver_get_by_v3_auth_digest e (sig_identity_digest sg) \<noteq> None);
             cert = authority_cert_get_by_digests e (sig_identity_digest sg)
                      (sig_signing_key_digest sg)
         in if sig_identity_digest sg \<noteq> identity_digest voter then Inl Assertion_failed
            else if \<not> is_v3_auth then Inr (t\<lparr>unknown_here := unknown_here t + 1\<rparr>, sg)
            else
              (case cert of
                 None \<Rightarrow> Inr (note_missing_key e sg t, sg)
               | Some crt \<Rightarrow>
                   if expires crt < time_now e then Inr (note_missing_key e sg t, sg)
                   else
                     (case networkstatus_check_document_signature e c sg crt of
                        (r, sg') \<Rightarrow>
                          if r < 0 then Inr (note_missing_key e sg t, sg')
                          else Inr (count_flags sg' t, sg'))))
      else Inr (count_flags sg t, sg))"

fun check_sigs ::
  "'dls env \<Rightarrow> networkstatus_t \<Rightarrow> networkstatus_voter_info_t \<Rightarrow> sig_tally
     \<Rightarrow> document_signature_t list \<Rightarrow> failure + (sig_tally \<times> document_signature_t list)" where
  "check_sigs e c voter t [] = Inr (t, [])"
| "check_sigs e c voter t (sg # rest) =
     (case check_one_sig e c voter t sg of
        Inl f \<Rightarrow> Inl f
      | Inr (t', sg') \<Rightarrow>
          (case check_sigs e c voter t' rest of
             Inl f \<Rightarrow> Inl f
           | Inr (t'', rest') \<Rightarrow> Inr (t'', sg' # rest')))"

record voter_counts =
  n_good :: int
  n_missing_key :: int
  n_dl_failed_key :: int
  n_bad :: int
  n_unknown :: int
  n_no_signature :: int

definition count_voter :: "sig_tally \<Rightarrow> voter_counts \<Rightarrow> voter_counts" where
  "count_voter t n =
     (if good_here t \<noteq> 0 then n\<lparr>n_good := n_good n + 1\<rparr>
      else if bad_here t \<noteq> 0 then n\<lparr>n_bad := n_bad n + 1\<rparr>
      else if missing_key_here t \<noteq> 0 then
        (let n = n\<lparr>n_missing_key := n_missing_key n + 1\<rparr> in
         if dl_failed_key_here t \<noteq> 0 then n\<lparr>n_dl_failed_key := n_dl_failed_key n + 1\<rparr>
         else n)
      else if unknown_here t \<noteq> 0 then n\<lparr>n_unknown := n_unknown n + 1\<rparr>
      else n\<lparr>n_no_signature := n_no_signature n + 1\<rparr>)"

definition no_sigs_seen :: sig_tally where
  "no_sigs_seen = \<lparr>good_here = 0, bad_here = 0, unknown_here = 0, missing_key_here = 0,
                   dl_failed_key_here = 0\<rparr>"

definition no_voters_seen :: voter_counts where
  "no_voters_seen = \<lparr>n_good = 0, n_missing_key = 0, n_dl_failed_key = 0, n_bad = 0,
                     n_unknown = 0, n_no_signature = 0\<rparr>"

text \<open>The outer loop: every voter of the document, its signatures checked in place.\<close>

fun check_voters ::
  "'dls env \<Rightarrow> networkstatus_t \<Rightarrow> voter_counts \<Rightarrow> networkstatus_voter_info_t list
     \<Rightarrow> failure + (voter_counts \<times> networkstatus_voter_info_t list)" where
  "check_voters e c n [] = Inr (n, [])"
| "check_voters e c n (voter # rest) =
     (case check_sigs e c voter no_sigs_seen (sigs voter) of
        Inl f \<Rightarrow> Inl f
      | Inr (t, sigs') \<Rightarrow>
          (case check_voters e c (count_voter t n) rest of
             Inl f \<Rightarrow> Inl f
           | Inr (n', rest') \<Rightarrow> Inr (n', voter\<lparr>sigs := sigs'\<rparr> # rest')))"

text \<open>
  The value returned from the counts: 1, 0, -1 or -2. The log messages of the function
  (and with them the parameter \<open>warn\<close>, which only selects their severity) are left out.
\<close>

definition signature_verdict :: "int \<Rightarrow> voter_counts \<Rightarrow> int" where
  "signature_verdict n_v3_authorities n =
     (let n_required = n_v3_authorities div 2 + 1 in
      if n_good n = n_v3_authorities then 1
      else if n_good n \<ge> n_required then 0
      else if n_good n + n_missing_key n \<ge> n_required then - 1
      else - 2)"

definition networkstatus_check_consensus_signature ::
  "'dls env \<Rightarrow> networkstatus_t \<Rightarrow> failure + (int \<times> networkstatus_t)" where
  "networkstatus_check_consensus_signature e c =
     (if ns_type c \<noteq> NS_TYPE_CONSENSUS then Inl Assertion_failed
      else
        (case check_voters e c no_voters_seen (voters c) of
           Inl f \<Rightarrow> Inl f
         | Inr (n, voters') \<Rightarrow>
             Inr (signature_verdict (get_n_authorities e) n, c\<lparr>voters := voters'\<rparr>)))"

text \<open>The counts the function reaches on a document, for stating what it returns.\<close>

definition consensus_counts :: "'dls env \<Rightarrow> networkstatus_t \<Rightarrow> voter_counts option" where
  "consensus_counts e c =
     (case check_voters e c no_voters_seen (voters c) of
        Inl f \<Rightarrow> None
      | Inr (n, voters') \<Rightarrow> Some n)"

section \<open>The cache files\<close>

text \<open>
  The disk is a map from path to content. Input and output errors of the file calls are
  not modelled: a write stores the bytes, \<open>unlink\<close> removes the path, \<open>tor_rename\<close>
  moves the content when the source exists.

  Modelled from the spec: \<open>get_cachedir_fname\<close> (config.c), \<open>write_bytes_to_file\<close>,
  \<open>tor_rename\<close> (lib/fs) and \<open>tor_mmap_file\<close> (lib/fs/mmap.c) are not under src/. The
  spec (4.B) has a store that reads bytes or nothing, writes whole files and renames the
  unverified file over the verified one, with names derived from the cache directory.
\<close>

definition get_cachedir_fname :: "'dls env \<Rightarrow> string \<Rightarrow> string" where
  "get_cachedir_fname e name = cachedir e @ ''/'' @ name"

definition write_bytes_to_file :: "(string \<rightharpoonup> bytes) \<Rightarrow> string \<Rightarrow> bytes \<Rightarrow> (string \<rightharpoonup> bytes)" where
  "write_bytes_to_file fs fname bs = fs(fname \<mapsto> bs)"

definition unlink :: "(string \<rightharpoonup> bytes) \<Rightarrow> string \<Rightarrow> (string \<rightharpoonup> bytes)" where
  "unlink fs fname = fs(fname := None)"

definition tor_rename :: "(string \<rightharpoonup> bytes) \<Rightarrow> string \<Rightarrow> string \<Rightarrow> (string \<rightharpoonup> bytes)" where
  "tor_rename fs old new =
     (case fs old of None \<Rightarrow> fs | Some bs \<Rightarrow> (fs(old := None))(new \<mapsto> bs))"

definition tor_mmap_file :: "(string \<rightharpoonup> bytes) \<Rightarrow> string \<Rightarrow> bytes option" where
  "tor_mmap_file fs fname = fs fname"

definition networkstatus_get_cache_fname ::
  "'dls env \<Rightarrow> consensus_flavor \<Rightarrow> string \<Rightarrow> bool \<Rightarrow> string" where
  "networkstatus_get_cache_fname e flav flavorname unverified_consensus =
     (let prefix = (if unverified_consensus then ''unverified'' else ''cached'') in
      if flav = FLAV_NS then get_cachedir_fname e (prefix @ ''-consensus'')
      else get_cachedir_fname e (prefix @ ''-'' @ flavorname @ ''-consensus''))"

text \<open>
  \<open>networkstatus_map_cached_consensus\<close>, the reader of the cached consensus that other
  parts of the program call: it maps the file as it is on the disk.
\<close>

definition networkstatus_map_cached_consensus_impl ::
  "'dls env \<Rightarrow> (string \<rightharpoonup> bytes) \<Rightarrow> consensus_flavor \<Rightarrow> string \<Rightarrow> bool \<Rightarrow> bytes option" where
  "networkstatus_map_cached_consensus_impl e fs flav flavorname unverified_consensus =
     tor_mmap_file fs (networkstatus_get_cache_fname e flav flavorname unverified_consensus)"

definition networkstatus_map_cached_consensus ::
  "'dls env \<Rightarrow> (string \<rightharpoonup> bytes) \<Rightarrow> string \<Rightarrow> bytes option" where
  "networkstatus_map_cached_consensus e fs flavorname =
     (case networkstatus_parse_flavor_name flavorname of
        None \<Rightarrow> None
      | Some flav \<Rightarrow> networkstatus_map_cached_consensus_impl e fs flav flavorname False)"

definition simple_key :: "8 word" where
  "simple_key = 0xAA"

definition xor_encrypt :: "bytes \<Rightarrow> bytes" where
  "xor_encrypt data = map (\<lambda>b. b XOR simple_key) data"

fun strstr :: "string \<Rightarrow> string \<Rightarrow> bool" where
  "strstr [] needle = (needle = [])"
| "strstr (h # hs) needle = (take (length needle) (h # hs) = needle \<or> strstr hs needle)"

text \<open>
  \<open>maybe_decrypt_consensus_file\<close> gives the name of the file to read (nothing for
  \<open>NULL\<close>) and the disk, where the decoded copy \<open>filename.tmp\<close> may have been written.
\<close>

definition maybe_decrypt_consensus_file ::
  "(string \<rightharpoonup> bytes) \<Rightarrow> string \<Rightarrow> string option \<times> (string \<rightharpoonup> bytes)" where
  "maybe_decrypt_consensus_file fs filename =
     (if \<not> strstr filename ''consensus'' then (Some filename, fs)
      else
        (case fs filename of
           None \<Rightarrow> (Some filename, fs)
         | Some buffer \<Rightarrow>
             if length buffer \<le> 0 then (None, fs)
             else
               (let decoded = map (\<lambda>b. b XOR simple_key) buffer;
                    new_path = filename @ ''.tmp''
                in (Some new_path, fs(new_path \<mapsto> decoded)))))"

section \<open>Setting the current consensus\<close>

text \<open>
  The flags word is embedded as its five bits. The result of
  \<open>networkstatus_set_current_consensus\<close> is the value returned, the place where the
  function left (one constructor per \<open>return\<close> or \<open>goto done\<close>, named after the log
  message there) and the state; \<open>exit(1)\<close> in the protocol gate and a failed assertion
  end the process and are the left summand.

  The calls that only tell other subsystems (control events, the notifications before
  and after the change, the directory server's cache, the consensus diff manager, the
  certificate fetches) do not touch the state modelled here and are left out;
  \<open>networkstatus_copy_old_consensus_info\<close> writes fields of the router statuses, which the
  record of the document does not hold. The parameter \<open>source_dir\<close> and the flag
  \<open>NSSET_DONT_DOWNLOAD_CERTS\<close> only reach the certificate fetches.
\<close>

record nsset_flags =
  NSSET_FROM_CACHE :: bool
  NSSET_WAS_WAITING_FOR_CERTS :: bool
  NSSET_DONT_DOWNLOAD_CERTS :: bool
  NSSET_ACCEPT_OBSOLETE :: bool
  NSSET_REQUIRE_FLAVOR :: bool

datatype set_outcome =
    Unrecognized_flavor
  | Unparseable
  | Unexpected_flavor
  | Uninteresting_flavor
  | Expired_from_cache
  | Nonfatal_unreached
  | Already_have
  | At_least_as_old
  | Waiting_for_certs
  | Never_the_latest
  | Not_enough_signatures
  | Consensus_set

definition we_want_to_fetch_flavor :: "'dls env \<Rightarrow> consensus_flavor \<Rightarrow> bool" where
  "we_want_to_fetch_flavor e flav =
     (if authdir_mode_v3 e \<or> directory_caches_dir_info e then True
      else if FetchUselessDescriptors e then True
      else flav = usable_consensus_flavor e)"

definition set_current :: "'dls ns_state \<Rightarrow> consensus_flavor \<Rightarrow> networkstatus_t \<Rightarrow> 'dls ns_state" where
  "set_current s flav c =
     (case flav of
        FLAV_NS \<Rightarrow> s\<lparr>current_ns_consensus := Some c\<rparr>
      | FLAV_MICRODESC \<Rightarrow> s\<lparr>current_md_consensus := Some c\<rparr>)"

text \<open>The part after "Signatures from the consensus are verified".\<close>

definition install_verified ::
  "'dls env \<Rightarrow> 'dls ns_state \<Rightarrow> bytes \<Rightarrow> nsset_flags \<Rightarrow> consensus_flavor \<Rightarrow> string \<Rightarrow> string
     \<Rightarrow> networkstatus_t \<Rightarrow> failure + (int \<times> set_outcome \<times> 'dls ns_state)" where
  "install_verified e s body flags flav consensus_fname unverified_fname c =
     (let now = approx_time e;
          s = (if NSSET_FROM_CACHE flags \<and> NSSET_WAS_WAITING_FOR_CERTS flags
               then s\<lparr>files := tor_rename (files s) unverified_fname consensus_fname\<rparr>
               else s);
          checked_protocols_already =
            (NSSET_FROM_CACHE flags \<and> \<not> NSSET_WAS_WAITING_FOR_CERTS flags)
      in if \<not> checked_protocols_already \<and> protocols_should_exit e c then Inl Process_exit
         else
           (let s = set_current s flav c;
                waiting = consensus_waiting_for_certs s flav;
                s = (case consensus waiting of
                       None \<Rightarrow> s
                     | Some w \<Rightarrow>
                         if valid_after w \<le> valid_after c
                         then s\<lparr>consensus_waiting_for_certs :=
                                  (consensus_waiting_for_certs s)
                                    (flav := \<lparr>consensus = None, set_at = 0, dl_failed = 0\<rparr>),
                                files := unlink (files s) unverified_fname\<rparr>
                         else s);
                dls = consensus_dl_status s flav;
                s = (if valid_after c \<le> now \<and> now \<le> valid_until c
                     then s\<lparr>consensus_dl_status :=
                              (consensus_dl_status s)(flav := download_status_reset e dls)\<rparr>
                     else if \<not> NSSET_FROM_CACHE flags
                     then s\<lparr>consensus_dl_status :=
                              (consensus_dl_status s)(flav := download_status_failed e dls 0)\<rparr>
                     else s);
                s = (if \<not> NSSET_FROM_CACHE flags
                     then s\<lparr>files := write_bytes_to_file (files s) consensus_fname
                                           (xor_encrypt body)\<rparr>
                     else s)
            in Inr (0, Consensus_set, s)))"

text \<open>The part under "Make sure it's signed enough", for a negative verdict \<open>r\<close>.\<close>

definition not_signed_enough ::
  "'dls env \<Rightarrow> 'dls ns_state \<Rightarrow> bytes \<Rightarrow> nsset_flags \<Rightarrow> consensus_flavor \<Rightarrow> string
     \<Rightarrow> time_t \<Rightarrow> int \<Rightarrow> networkstatus_t \<Rightarrow> int \<times> set_outcome \<times> 'dls ns_state" where
  "not_signed_enough e s body flags flav unverified_fname current_valid_after r c =
     (if r = - 1 then
        (if current_valid_after = 0 \<or> valid_after c > current_valid_after then
           (let s = s\<lparr>consensus_waiting_for_certs :=
                        (consensus_waiting_for_certs s)
                          (flav := \<lparr>consensus = Some c, set_at = approx_time e,
                                     dl_failed = 0\<rparr>)\<rparr>;
                s = (if \<not> NSSET_FROM_CACHE flags
                     then s\<lparr>files := write_bytes_to_file (files s) unverified_fname
                                           (xor_encrypt body)\<rparr>
                     else s)
            in (0, Waiting_for_certs, s))
         else
           (- 1, Never_the_latest,
            if NSSET_WAS_WAITING_FOR_CERTS flags \<and> NSSET_FROM_CACHE flags
            then s\<lparr>files := unlink (files s) unverified_fname\<rparr> else s))
      else
        (if \<not> NSSET_WAS_WAITING_FOR_CERTS flags then - 2 else - 1,
         Not_enough_signatures,
         if NSSET_WAS_WAITING_FOR_CERTS flags \<and> r < - 1 \<and> NSSET_FROM_CACHE flags
         then s\<lparr>files := unlink (files s) unverified_fname\<rparr> else s))"

text \<open>The checks from the choice of the file names on, for the parsed document.\<close>

definition replace_current ::
  "'dls env \<Rightarrow> 'dls ns_state \<Rightarrow> bytes \<Rightarrow> nsset_flags \<Rightarrow> consensus_flavor \<Rightarrow> string
     \<Rightarrow> networkstatus_t \<Rightarrow> failure + (int \<times> set_outcome \<times> 'dls ns_state)" where
  "replace_current e s body flags flav flavor_name c =
     (if flavor_name \<noteq> ''ns'' \<and> flavor_name \<noteq> ''microdesc''
      then Inr (- 2, Nonfatal_unreached, s)
      else
        (let is_ns = (flavor_name = ''ns'');
             consensus_fname = get_cachedir_fname e
               (if is_ns then ''cached-consensus'' else ''cached-microdesc-consensus'');
             unverified_fname = get_cachedir_fname e
               (if is_ns then ''unverified-consensus'' else ''unverified-microdesc-consensus'');
             current = (if is_ns then current_ns_consensus s else current_md_consensus s);
             current_digests = map_option digests current;
             current_valid_after = (case current of None \<Rightarrow> 0 | Some cur \<Rightarrow> valid_after cur)
         in if current_digests = Some (digests c) then Inr (- 1, Already_have, s)
            else if current_valid_after \<noteq> 0 \<and> valid_after c \<le> current_valid_after
            then Inr (- 1, At_least_as_old, s)
            else
              (case networkstatus_check_consensus_signature e c of
                 Inl f \<Rightarrow> Inl f
               | Inr (r, c') \<Rightarrow>
                   if r < 0
                   then Inr (not_signed_enough e s body flags flav unverified_fname
                               current_valid_after r c')
                   else install_verified e s body flags flav consensus_fname
                          unverified_fname c')))"

definition networkstatus_set_current_consensus ::
  "'dls env \<Rightarrow> 'dls ns_state \<Rightarrow> bytes \<Rightarrow> string \<Rightarrow> nsset_flags
     \<Rightarrow> failure + (int \<times> set_outcome \<times> 'dls ns_state)" where
  "networkstatus_set_current_consensus e s body flavor_name flags =
     (case networkstatus_parse_flavor_name flavor_name of
        None \<Rightarrow> Inr (- 2, Unrecognized_flavor, s)
      | Some flav0 \<Rightarrow>
          (case networkstatus_parse_vote_from_string e body of
             None \<Rightarrow> Inr (- 2, Unparseable, s)
           | Some c \<Rightarrow>
               if NSSET_FROM_CACHE flags \<and> \<not> NSSET_WAS_WAITING_FOR_CERTS flags
                  \<and> protocols_should_exit e c
               then Inl Process_exit
               else if flavor c \<noteq> flav0 \<and> NSSET_REQUIRE_FLAVOR flags
               then Inr (- 1, Unexpected_flavor, s)
               else
                 (let flav = (if flavor c \<noteq> flav0 then flavor c else flav0);
                      flavor_name = (if flavor c \<noteq> flav0
                                     then networkstatus_get_flavor_name flav
                                     else flavor_name)
                  in if flav \<noteq> usable_consensus_flavor e \<and> \<not> we_want_to_fetch_flavor e flav
                     then Inr (- 1, Uninteresting_flavor, s)
                     else if NSSET_FROM_CACHE flags \<and> \<not> NSSET_ACCEPT_OBSOLETE flags
                             \<and> valid_until c < approx_time e - OLD_ROUTER_DESC_MAX_AGE e
                     then Inr (- 1, Expired_from_cache, s)
                     else replace_current e s body flags flav flavor_name c)))"

section \<open>Reloading from the cache\<close>

text \<open>
  \<open>reload_consensus_from_file\<close>: the value returned and the state. When
  \<open>maybe_decrypt_consensus_file\<close> gives \<open>NULL\<close>, \<open>tor_mmap_file\<close> is called on \<open>NULL\<close>; what
  it does then is outside src/, and the model stops with \<open>Null_filename\<close>. The branch
  for Windows is compiled out.
\<close>

definition reload_consensus_from_file ::
  "'dls env \<Rightarrow> 'dls ns_state \<Rightarrow> string \<Rightarrow> string \<Rightarrow> nsset_flags
     \<Rightarrow> failure + (int \<times> 'dls ns_state)" where
  "reload_consensus_from_file e s fname flavor_name flags =
     (case maybe_decrypt_consensus_file (files s) fname of
        (None, fs) \<Rightarrow> Inl Null_filename
      | (Some real_filename, fs) \<Rightarrow>
          (case tor_mmap_file fs real_filename of
             None \<Rightarrow> Inr (0, s\<lparr>files := fs\<rparr>)
           | Some body \<Rightarrow>
               (case networkstatus_set_current_consensus e (s\<lparr>files := fs\<rparr>) body
                       flavor_name flags of
                  Inl f \<Rightarrow> Inl f
                | Inr (rv, out, s') \<Rightarrow>
                    Inr (rv,
                         s'\<lparr>files :=
                              unlink (unlink (files s') ''/home/mahdi/.tor/unverified-consensus.tmp'')
                                ''/home/mahdi/.tor/cached-consensus.tmp''\<rparr>))))"

section \<open>Reading a result\<close>

definition outcome_of :: "failure + (int \<times> set_outcome \<times> 'dls ns_state) \<Rightarrow> set_outcome option" where
  "outcome_of r = (case r of Inl f \<Rightarrow> None | Inr (rv, out, s) \<Rightarrow> Some out)"

definition state_of :: "failure + (int \<times> set_outcome \<times> 'dls ns_state) \<Rightarrow> 'dls ns_state option" where
  "state_of r = (case r of Inl f \<Rightarrow> None | Inr (rv, out, s) \<Rightarrow> Some s)"

definition parked :: "'dls ns_state \<Rightarrow> consensus_flavor \<Rightarrow> networkstatus_t option" where
  "parked s flav = consensus (consensus_waiting_for_certs s flav)"

section \<open>A small network, for the concrete cases\<close>

text \<open>
  One v3 authority with identity \<open>A\<close>, whose certificate for the signing key \<open>K\<close> is
  in the store; a signature checks when its bytes are the digest of the document. The
  local node is a client that uses microdescriptors. A schedule is its failure count.
\<close>

definition digest_a :: string where
  "digest_a = ''aaaaaaaaaaaaaaaaaaaa''"

definition digest_b :: string where
  "digest_b = ''bbbbbbbbbbbbbbbbbbbb''"

definition sig_by :: "string \<Rightarrow> string \<Rightarrow> document_signature_t" where
  "sig_by key dg =
     \<lparr>sig_identity_digest = ''A'', sig_signing_key_digest = key, alg = DIGEST_SHA1,
      good_signature = False, bad_signature = False, signature = Some dg\<rparr>"

definition voter_a :: "string \<Rightarrow> string \<Rightarrow> networkstatus_voter_info_t" where
  "voter_a key dg = \<lparr>nickname = ''auth'', identity_digest = ''A'', sigs = [sig_by key dg]\<rparr>"

definition doc :: "time_t \<Rightarrow> string \<Rightarrow> string \<Rightarrow> networkstatus_t" where
  "doc va key dg =
     \<lparr>ns_type = NS_TYPE_CONSENSUS, flavor = FLAV_MICRODESC, valid_after = va,
      fresh_until = va + 3600, valid_until = va + 10800, dist_seconds = 300,
      digests = \<lparr>d_sha1 = dg, d_sha256 = dg\<rparr>, voters = [voter_a key dg],
      net_params = Some [''foo=5'', ''bar=10000'']\<rparr>"

definition body_2000 :: bytes where "body_2000 = [0x32, 0x30]"
definition body_3000 :: bytes where "body_3000 = [0x33, 0x30]"
definition body_4000 :: bytes where "body_4000 = [0x34, 0x30]"
definition body_5000 :: bytes where "body_5000 = [0x35, 0x30]"
definition body_zero_a :: bytes where "body_zero_a = [0x30, 0x61]"
definition body_zero_b :: bytes where "body_zero_b = [0x30, 0x62]"

text \<open>
  The documents the toy parser knows: two that verify (valid after 2000 and 3000), two
  signed with a key \<open>K2\<close> whose certificate is missing (4000 and 5000), and two stamped
  with valid-after 0.
\<close>

definition toy_parse :: "bytes \<Rightarrow> networkstatus_t option" where
  "toy_parse body =
     (if body = body_2000 then Some (doc 2000 ''K'' digest_a)
      else if body = body_3000 then Some (doc 3000 ''K'' digest_b)
      else if body = body_4000 then Some (doc 4000 ''K2'' digest_a)
      else if body = body_5000 then Some (doc 5000 ''K2'' digest_b)
      else if body = body_zero_a then Some (doc 0 ''K'' digest_a)
      else if body = body_zero_b then Some (doc 0 ''K'' digest_b)
      else None)"

definition cert_a :: authority_cert_t where
  "cert_a = \<lparr>cert_identity_digest = ''A'', signing_key = ''K'', signing_key_digest = ''K'',
            expires = 1000000\<rparr>"

definition toy_env :: "time_t \<Rightarrow> nat env" where
  "toy_env now =
     \<lparr>approx_time = now, time_now = now,
      we_use_microdescriptors_for_circuits = True, authdir_mode_v3 = False,
      directory_caches_dir_info = False, FetchUselessDescriptors = False,
      networkstatus_parse_vote_from_string = toy_parse,
      protocols_should_exit = (\<lambda>c. False),
      trusted_dir_servers = [\<lparr>is_v3_dirinfo = True, v3_identity_digest = ''A''\<rparr>],
      authority_cert_get_by_digests =
        (\<lambda>idd skd. if idd = ''A'' \<and> skd = ''K'' then Some cert_a else None),
      authority_cert_is_denylisted = (\<lambda>crt. False),
      authority_cert_dl_looks_uncertain = (\<lambda>idd. False),
      crypto_pk_get_digest = (\<lambda>key. Some key),
      crypto_pk_public_checksig = (\<lambda>key sg. sg),
      cachedir = ''/var/lib/tor'',
      OLD_ROUTER_DESC_MAX_AGE = 432000,
      tor_parse_long = parse_int32,
      download_status_failed = (\<lambda>dls status_code. Suc dls),
      download_status_reset = (\<lambda>dls. 0)\<rparr>"

definition nothing_waiting :: consensus_waiting_for_certs_t where
  "nothing_waiting = \<lparr>consensus = None, set_at = 0, dl_failed = 0\<rparr>"

definition fresh_start :: "nat ns_state" where
  "fresh_start =
     \<lparr>current_ns_consensus = None, current_md_consensus = None,
      consensus_waiting_for_certs = (\<lambda>flav. nothing_waiting),
      consensus_dl_status = (\<lambda>flav. 0), files = Map.empty\<rparr>"

definition from_network :: nsset_flags where
  "from_network =
     \<lparr>NSSET_FROM_CACHE = False, NSSET_WAS_WAITING_FOR_CERTS = False,
      NSSET_DONT_DOWNLOAD_CERTS = False, NSSET_ACCEPT_OBSOLETE = False,
      NSSET_REQUIRE_FLAVOR = False\<rparr>"

definition from_cache_flags :: nsset_flags where
  "from_cache_flags =
     \<lparr>NSSET_FROM_CACHE = True, NSSET_WAS_WAITING_FOR_CERTS = False,
      NSSET_DONT_DOWNLOAD_CERTS = True, NSSET_ACCEPT_OBSOLETE = False,
      NSSET_REQUIRE_FLAVOR = False\<rparr>"


section \<open>The parameter resolver in the words of the spec\<close>

text \<open>
  The spec (4.H): \<open>get_int\<close> scans the active document's \<open>net_params\<close> for a
  \<open>name=value\<close> entry, parses the value, clips it to the range and returns the default
  on absence or parse failure.
\<close>

definition entry_value :: "(string \<Rightarrow> int option) \<Rightarrow> string \<Rightarrow> string \<Rightarrow> int option" where
  "entry_value parse name p =
     (if take (Suc (length name)) p = name @ ''='' then parse (drop (Suc (length name)) p)
      else None)"

definition first_entry :: "(string \<Rightarrow> int option) \<Rightarrow> string \<Rightarrow> string list \<Rightarrow> int option" where
  "first_entry parse name ps =
     (case List.map_filter (entry_value parse name) ps of [] \<Rightarrow> None | v # vs \<Rightarrow> Some v)"

definition clip :: "int \<Rightarrow> int \<Rightarrow> int \<Rightarrow> int" where
  "clip lo hi v = max lo (min hi v)"

definition active_params ::
  "'dls env \<Rightarrow> 'dls ns_state \<Rightarrow> networkstatus_t option \<Rightarrow> string list option" where
  "active_params e s ns =
     (case (case ns of None \<Rightarrow> networkstatus_get_latest_consensus e s | Some n \<Rightarrow> Some n) of
        None \<Rightarrow> None
      | Some n \<Rightarrow> net_params n)"

definition spec_get_int ::
  "'dls env \<Rightarrow> 'dls ns_state \<Rightarrow> networkstatus_t option \<Rightarrow> string \<Rightarrow> int \<Rightarrow> int \<Rightarrow> int \<Rightarrow> int" where
  "spec_get_int e s ns name d lo hi =
     (case active_params e s ns of
        None \<Rightarrow> d
      | Some ps \<Rightarrow>
          (case first_entry (tor_parse_long e) name ps of
             None \<Rightarrow> d
           | Some v \<Rightarrow> clip lo hi v))"

section \<open>States of the small network\<close>

text \<open>A document signed with the missing key is parked for the microdesc flavor.\<close>

definition parked_since :: "time_t \<Rightarrow> time_t \<Rightarrow> nat ns_state" where
  "parked_since va t =
     fresh_start\<lparr>consensus_waiting_for_certs :=
       (\<lambda>flav. nothing_waiting)
         (FLAV_MICRODESC := \<lparr>consensus = Some (doc va ''K2'' digest_a), set_at = t,
                               dl_failed = 0\<rparr>)\<rparr>"

text \<open>A document is the current microdesc consensus; nothing is parked.\<close>

definition holding :: "networkstatus_t \<Rightarrow> nat ns_state" where
  "holding c = fresh_start\<lparr>current_md_consensus := Some c\<rparr>"

text \<open>
  The disk after the document 2000 was cached, with a file of a user's own at one of the
  two paths that \<open>reload_consensus_from_file\<close> names.
\<close>

definition cached_disk :: "nat ns_state" where
  "cached_disk =
     fresh_start\<lparr>files :=
       [''/var/lib/tor/cached-microdesc-consensus'' \<mapsto> xor_encrypt body_2000,
        ''/home/mahdi/.tor/cached-consensus.tmp'' \<mapsto> [0x6B, 0x65, 0x65, 0x70]]\<rparr>"

definition files_after :: "failure + (int \<times> 'dls ns_state) \<Rightarrow> string \<Rightarrow> bytes option option" where
  "files_after r p = (case r of Inl f \<Rightarrow> None | Inr (rv, s) \<Rightarrow> Some (files s p))"

definition current_after ::
  "failure + (int \<times> 'dls ns_state) \<Rightarrow> consensus_flavor \<Rightarrow> networkstatus_t option option" where
  "current_after r flav =
     (case r of Inl f \<Rightarrow> None
              | Inr (rv, s) \<Rightarrow> Some (networkstatus_get_latest_consensus_by_flavor s flav))"

definition verdict_of :: "failure + (int \<times> networkstatus_t) \<Rightarrow> int option" where
  "verdict_of r = (case r of Inl f \<Rightarrow> None | Inr (v, c) \<Rightarrow> Some v)"

text \<open>Every signature listed under a voter carries the identity of the voter.\<close>

definition sigs_match_voters :: "networkstatus_t \<Rightarrow> bool" where
  "sigs_match_voters c =
     list_all (\<lambda>voter. list_all (\<lambda>sg. sig_identity_digest sg = identity_digest voter)
                          (sigs voter))
       (voters c)"


section \<open>Notions for stating the claims on the current consensus\<close>

text \<open>The two cache files of a flavor, as \<open>networkstatus_get_cache_fname\<close> names them.\<close>

definition cached_fname :: "'dls env \<Rightarrow> consensus_flavor \<Rightarrow> string" where
  "cached_fname e flav =
     networkstatus_get_cache_fname e flav (networkstatus_get_flavor_name flav) False"

definition unverified_fname :: "'dls env \<Rightarrow> consensus_flavor \<Rightarrow> string" where
  "unverified_fname e flav =
     networkstatus_get_cache_fname e flav (networkstatus_get_flavor_name flav) True"

text \<open>
  The parked document of a flavor, when there is one and a current consensus of the
  flavor with a valid-after other than 0, is strictly newer than the current one.
\<close>

definition parked_newer_at :: "'dls ns_state \<Rightarrow> consensus_flavor \<Rightarrow> bool" where
  "parked_newer_at s flav =
     (case parked s flav of
        None \<Rightarrow> True
      | Some p \<Rightarrow>
          (case networkstatus_get_latest_consensus_by_flavor s flav of
             None \<Rightarrow> True
           | Some cur \<Rightarrow> valid_after cur = 0 \<or> valid_after cur < valid_after p))"

definition parked_newer :: "'dls ns_state \<Rightarrow> bool" where
  "parked_newer s = (parked_newer_at s FLAV_NS \<and> parked_newer_at s FLAV_MICRODESC)"

text \<open>
  A sequence of calls of \<open>networkstatus_set_current_consensus\<close>, each with its own
  environment (the clock and the certificates change between calls); nothing when the
  process ends on the way.
\<close>

fun run_installs ::
  "('dls env \<times> bytes \<times> string \<times> nsset_flags) list \<Rightarrow> 'dls ns_state \<Rightarrow> 'dls ns_state option" where
  "run_installs [] s = Some s"
| "run_installs ((e, body, flavor_name, flags) # calls) s =
     (case networkstatus_set_current_consensus e s body flavor_name flags of
        Inl f \<Rightarrow> None
      | Inr (rv, out, s') \<Rightarrow> run_installs calls s')"

text \<open>A start of the process: nothing current, nothing parked, the disk kept.\<close>

definition restarted :: "'dls ns_state \<Rightarrow> 'dls ns_state" where
  "restarted s =
     s\<lparr>current_ns_consensus := None, current_md_consensus := None,
       consensus_waiting_for_certs :=
         (\<lambda>flav. \<lparr>consensus = None, set_at = 0, dl_failed = 0\<rparr>)\<rparr>"

definition files_of_result ::
  "failure + (int \<times> set_outcome \<times> 'dls ns_state) \<Rightarrow> string \<Rightarrow> bytes option option" where
  "files_of_result r p = (case r of Inl f \<Rightarrow> None | Inr (rv, out, s) \<Rightarrow> Some (files s p))"

text \<open>
  The document 3000 is current and the document 5000, signed with the missing key, is
  parked since 3400.
\<close>

definition holding_and_parked :: "nat ns_state" where
  "holding_and_parked =
     fresh_start\<lparr>current_md_consensus := Some (doc 3000 ''K'' digest_b),
       consensus_waiting_for_certs :=
         (\<lambda>flav. nothing_waiting)
           (FLAV_MICRODESC := \<lparr>consensus = Some (doc 5000 ''K2'' digest_b), set_at = 3400,
                                 dl_failed = 0\<rparr>)\<rparr>"


text \<open>
  A document is received from the network by the fresh process in one environment and,
  when it is installed, the process starts again and reloads the microdesc cache file
  in another environment.
\<close>

definition install_then_reload ::
  "nat env \<Rightarrow> nat env \<Rightarrow> bytes \<Rightarrow> (failure + (int \<times> nat ns_state)) option" where
  "install_then_reload e1 e2 body =
     (case networkstatus_set_current_consensus e1 fresh_start body ''microdesc'' from_network of
        Inl f \<Rightarrow> None
      | Inr (rv, out, s1) \<Rightarrow>
          if out = Consensus_set
          then Some (reload_consensus_from_file e2 (restarted s1)
                       (cached_fname e2 FLAV_MICRODESC) ''microdesc'' from_cache_flags)
          else None)"

definition returned :: "failure + (int \<times> 'dls ns_state) \<Rightarrow> int option" where
  "returned r = (case r of Inl f \<Rightarrow> None | Inr (rv, s) \<Rightarrow> Some rv)"

text \<open>
  What the parser and the validator keep of the voters of a document: no identity is
  listed twice, every signature is listed under the voter whose identity it carries,
  and a signature already flagged good is of a recognized authority.
\<close>

definition good_flag_recognized :: "'dls env \<Rightarrow> document_signature_t \<Rightarrow> bool" where
  "good_flag_recognized e sg =
     (if good_signature sg
      then trusteddirserver_get_by_v3_auth_digest e (sig_identity_digest sg) \<noteq> None
      else True)"

definition flagged_good_recognized :: "'dls env \<Rightarrow> networkstatus_t \<Rightarrow> bool" where
  "flagged_good_recognized e c =
     list_all (\<lambda>voter. list_all (good_flag_recognized e) (sigs voter)) (voters c)"

definition voters_well_formed :: "'dls env \<Rightarrow> networkstatus_t \<Rightarrow> bool" where
  "voters_well_formed e c =
     (distinct (map identity_digest (voters c)) \<and> sigs_match_voters c
      \<and> flagged_good_recognized e c)"

section \<open>Consensus parameters: the proofs\<close>

lemma entry_cond:
  "(strcmpstart p name \<and> length name < length p \<and> p ! length name = c)
     = (take (Suc (length name)) p = name @ [c])"
proof
  assume a: "strcmpstart p name \<and> length name < length p \<and> p ! length name = c"
  then show "take (Suc (length name)) p = name @ [c]"
    by (simp add: strcmpstart_def take_Suc_conv_app_nth)
next
  assume b: "take (Suc (length name)) p = name @ [c]"
  then have "length (take (Suc (length name)) p) = Suc (length name)" by simp
  then have len: "length name < length p" by simp
  with b have "take (length name) p @ [p ! length name] = name @ [c]"
    by (simp add: take_Suc_conv_app_nth)
  with len show "strcmpstart p name \<and> length name < length p \<and> p ! length name = c"
    by (simp add: strcmpstart_def)
qed

lemma net_param_loop_first_entry:
  "net_param_loop parse name res ps =
     (case first_entry parse name ps of None \<Rightarrow> res | Some v \<Rightarrow> v)"
proof (induction ps)
  case Nil
  show ?case by (simp add: first_entry_def)
next
  case (Cons p ps)
  show ?case
  proof (cases "entry_value parse name p")
    case None
    then show ?thesis using Cons
      by (auto simp: first_entry_def entry_value_def entry_cond
               split: option.splits if_splits)
  next
    case (Some v)
    then show ?thesis
      by (auto simp: first_entry_def entry_value_def entry_cond
               split: option.splits if_splits)
  qed
qed

lemma get_net_param_from_list_spec:
  assumes "lo < hi" "lo \<le> d" "d \<le> hi"
  shows "get_net_param_from_list parse ps name d lo hi =
           Inr (case first_entry parse name ps of None \<Rightarrow> d | Some v \<Rightarrow> clip lo hi v)"
  using assms
  by (auto simp: get_net_param_from_list_def net_param_loop_first_entry clip_def Let_def
           split: option.splits)

lemma get_net_param_from_list_asserts:
  "\<not> (lo < hi \<and> lo \<le> d \<and> d \<le> hi) \<Longrightarrow>
     get_net_param_from_list parse ps name d lo hi = Inl Assertion_failed"
  by (auto simp: get_net_param_from_list_def)

text \<open>
  C7 (as amended). For every call \<open>get_int(name, def, lo, hi)\<close> with \<open>lo < hi\<close> and
  \<open>lo \<le> def \<le> hi\<close>, the call returns a value, and the value lies in \<open>[lo, hi]\<close>: it is
  the first present, parseable \<open>name=value\<close> entry of the active document clipped into
  the range, and \<open>def\<close> when there is no document, no parameter list, no such entry or
  no entry that parses. (With \<open>lo = hi\<close> the call can fail an assertion instead: C10.)
\<close>

theorem get_param_clipped:
  assumes "lo < hi" and "lo \<le> d" and "d \<le> hi"
  shows "networkstatus_get_param e s ns name d lo hi = Inr (spec_get_int e s ns name d lo hi)
         \<and> lo \<le> spec_get_int e s ns name d lo hi \<and> spec_get_int e s ns name d lo hi \<le> hi"
  using assms
  by (auto simp: networkstatus_get_param_def spec_get_int_def active_params_def
                 get_net_param_from_list_spec clip_def Let_def
           split: option.splits)

text \<open>
  The scenario S6 of the spec, from the theorem: on a document with the parameters
  \<open>foo=5 bar=10000\<close>, \<open>foo\<close> resolves to 5, \<open>bar\<close> is clipped to 9 and the missing \<open>baz\<close>
  gives the default 3.
\<close>

theorem get_param_clipped_witness:
  "networkstatus_get_param (toy_env 0) fresh_start (Some (doc 2000 ''K'' digest_a))
       ''foo'' 3 1 9 = Inr 5
   \<and> networkstatus_get_param (toy_env 0) fresh_start (Some (doc 2000 ''K'' digest_a))
       ''bar'' 3 1 9 = Inr 9
   \<and> networkstatus_get_param (toy_env 0) fresh_start (Some (doc 2000 ''K'' digest_a))
       ''baz'' 3 1 9 = Inr 3"
proof -
  have pre: "(1::int) < 9" "(1::int) \<le> 3" "(3::int) \<le> 9" by simp_all
  have foo: "spec_get_int (toy_env 0) fresh_start (Some (doc 2000 ''K'' digest_a))
               ''foo'' 3 1 9 = 5"
    by (simp add: spec_get_int_def active_params_def doc_def toy_env_def first_entry_def
                  entry_value_def parse_int32_def signed_digits_def
                  in_int32_def clip_def)
  have bar: "spec_get_int (toy_env 0) fresh_start (Some (doc 2000 ''K'' digest_a))
               ''bar'' 3 1 9 = 9"
    by (simp add: spec_get_int_def active_params_def doc_def toy_env_def first_entry_def
                  entry_value_def parse_int32_def signed_digits_def
                  in_int32_def clip_def)
  have baz: "spec_get_int (toy_env 0) fresh_start (Some (doc 2000 ''K'' digest_a))
               ''baz'' 3 1 9 = 3"
    by (simp add: spec_get_int_def active_params_def doc_def toy_env_def first_entry_def
                  entry_value_def parse_int32_def signed_digits_def
                  in_int32_def clip_def)
  show ?thesis
    using get_param_clipped [OF pre, of "toy_env 0" fresh_start
            "Some (doc 2000 ''K'' digest_a)" "''foo''"]
          get_param_clipped [OF pre, of "toy_env 0" fresh_start
            "Some (doc 2000 ''K'' digest_a)" "''bar''"]
          get_param_clipped [OF pre, of "toy_env 0" fresh_start
            "Some (doc 2000 ''K'' digest_a)" "''baz''"]
    by (simp add: foo bar baz)
qed

text \<open>
  The claim C7 as written admits \<open>lo = def = hi\<close>; there the call on a document with a
  parameter list returns no value: the assertion \<open>max_val > min_val\<close> fails.
\<close>

theorem get_param_equal_bounds_counterexample:
  "(3::int) \<le> 3
   \<and> networkstatus_get_param (toy_env 0) fresh_start (Some (doc 2000 ''K'' digest_a))
       ''foo'' 3 3 3 = Inl Assertion_failed"
  by (simp add: networkstatus_get_param_def doc_def get_net_param_from_list_def)

text \<open>
  C10 (as amended). With equal bounds \<open>min = max\<close> the assertion \<open>max_val > min_val\<close> of
  \<open>get_net_param_from_list\<close> fails on every call, whatever the list, the name and the
  default. \<open>networkstatus_get_param\<close> reaches it exactly when it finds a parameter list:
  the consensus handed in, or else the latest consensus, exists and has \<open>net_params\<close>;
  then the assertion fails, and otherwise the default is returned before the assertion.
  So \<open>get_int\<close> returns a value in every state and on every document exactly when
  \<open>min < max\<close> and \<open>min \<le> default \<le> max\<close>.
\<close>

theorem equal_bounds_fail_assertion:
  "get_net_param_from_list parse ps name d m m = Inl Assertion_failed
   \<and> networkstatus_get_param e s ns name d m m
       = (case active_params e s ns of None \<Rightarrow> Inr d | Some qs \<Rightarrow> Inl Assertion_failed)
   \<and> ((\<forall>s' ns'. \<exists>v. networkstatus_get_param e (s' :: 'a ns_state) ns' name d lo hi = Inr v)
        = (lo < hi \<and> lo \<le> d \<and> d \<le> hi))"
proof -
  have a: "get_net_param_from_list parse ps name d m m = Inl Assertion_failed"
    by (simp add: get_net_param_from_list_def)
  have b: "networkstatus_get_param e s ns name d m m
             = (case active_params e s ns of None \<Rightarrow> Inr d | Some qs \<Rightarrow> Inl Assertion_failed)"
    by (simp add: networkstatus_get_param_def active_params_def get_net_param_from_list_def
             split: option.splits)
  have c: "(\<forall>s' ns'. \<exists>v. networkstatus_get_param e (s' :: 'a ns_state) ns' name d lo hi = Inr v)
             = (lo < hi \<and> lo \<le> d \<and> d \<le> hi)"
  proof (cases "lo < hi \<and> lo \<le> d \<and> d \<le> hi")
    case True
    then show ?thesis
      by (auto simp: networkstatus_get_param_def get_net_param_from_list_spec Let_def
               split: option.splits)
  next
    case False
    have "networkstatus_get_param e s (Some ((doc 0 [] [])\<lparr>net_params := Some []\<rparr>)) name d lo hi
            = Inl Assertion_failed"
      using False
      by (simp add: networkstatus_get_param_def get_net_param_from_list_asserts)
    then have "\<not> (\<forall>s' ns'. \<exists>v. networkstatus_get_param e (s' :: 'a ns_state) ns' name d lo hi
                                 = Inr v)"
      by (metis sum.distinct(1))
    with False show ?thesis by blast
  qed
  from a b c show ?thesis by simp
qed

theorem equal_bounds_fail_assertion_witness:
  "get_net_param_from_list parse_int32 [''foo=5'', ''bar=10000''] ''foo'' 3 3 3
     = Inl Assertion_failed
   \<and> networkstatus_get_param (toy_env 0) fresh_start (Some (doc 2000 ''K'' digest_a))
       ''foo'' 3 3 3 = Inl Assertion_failed
   \<and> networkstatus_get_param (toy_env 0) (holding (doc 2000 ''K'' digest_a)) None
       ''foo'' 3 3 3 = Inl Assertion_failed"
  using equal_bounds_fail_assertion [of parse_int32 "[''foo=5'', ''bar=10000'']" "''foo''" 3 3
          "toy_env 0" fresh_start "Some (doc 2000 ''K'' digest_a)" 0 1]
        equal_bounds_fail_assertion [of parse_int32 "[''foo=5'', ''bar=10000'']" "''foo''" 3 3
          "toy_env 0" "holding (doc 2000 ''K'' digest_a)" None 0 1]
  by (simp add: active_params_def networkstatus_get_latest_consensus_def toy_env_def
                holding_def fresh_start_def doc_def)

text \<open>
  The claim C10 as written has the assertion fail on every call with equal bounds. With
  no consensus at all, and with a consensus that carries no parameter list, the call
  \<open>get_int("foo", 3, 3, 3)\<close> returns the default 3.
\<close>

theorem equal_bounds_without_params_counterexample:
  "networkstatus_get_param (toy_env 0) fresh_start None ''foo'' 3 3 3 = Inr 3
   \<and> networkstatus_get_param (toy_env 0) fresh_start
       (Some ((doc 2000 ''K'' digest_a)\<lparr>net_params := None\<rparr>)) ''foo'' 3 3 3 = Inr 3"
  by code_simp

section \<open>The certificate waiter and the bootstrap controller: the proofs\<close>

text \<open>
  What a probe that times out for the first time does, for every state: the schedule is
  failed exactly when fewer than 60 seconds have passed since the document was parked.
\<close>

lemma probe_timeout_credit:
  assumes "parked s flav = Some c"
    and "\<not> (set_at (consensus_waiting_for_certs s flav) + 20 * 60 > now \<and> valid_until c > now)"
    and "dl_failed (consensus_waiting_for_certs s flav) = 0"
  shows "check_consensus_waiting_for_certs e s flav now dls =
           (0,
            if now - set_at (consensus_waiting_for_certs s flav) < 60
            then download_status_failed e dls 0 else dls,
            s\<lparr>consensus_waiting_for_certs :=
                (consensus_waiting_for_certs s)
                  (flav := (consensus_waiting_for_certs s flav)\<lparr>dl_failed := 1\<rparr>)\<rparr>)"
  using assms
  by (auto simp: check_consensus_waiting_for_certs_def parked_def Let_def
                 DELAY_WHILE_FETCHING_CERTS_def MIN_DELAY_FOR_FETCH_CERT_STATUS_FAILURE_def)

text \<open>
  C4, the code at two probes that time out for the first time. A document parked at
  4000 and probed at 5200 has waited 1200 s, more than 60 s: the probe returns 0 and
  sets \<open>dl_failed\<close>, but the schedule keeps its 0 failures. A document parked at 14790
  and probed at 14800, when its valid-until has passed, has waited 10 s: the schedule is
  failed. The comparison \<open>set_at + MIN_DELAY_FOR_FETCH_CERT_STATUS_FAILURE > now\<close>
  credits the failure when less than the minimum has been waited, against the comment
  of the function and of the constant.
\<close>

theorem probe_credits_only_short_waits:
  "(let r = check_consensus_waiting_for_certs (toy_env 5200) (parked_since 4000 4000)
              FLAV_MICRODESC 5200 0
    in fst r = 0 \<and> fst (snd r) = 0
       \<and> dl_failed (consensus_waiting_for_certs (snd (snd r)) FLAV_MICRODESC) = 1)
   \<and> (let r = check_consensus_waiting_for_certs (toy_env 14800) (parked_since 4000 14790)
                 FLAV_MICRODESC 14800 0
       in fst r = 0 \<and> fst (snd r) = 1
          \<and> dl_failed (consensus_waiting_for_certs (snd (snd r)) FLAV_MICRODESC) = 1)"
  by code_simp

text \<open>
  C8 (as amended). \<open>is_bootstrapping(now)\<close> returns false (0) whenever the registry
  holds, for the usable flavor, a document with
  \<open>valid_after - 24 h \<le> now \<le> valid_until + 24 h\<close>, or a document is parked in the
  certificate waiter for that flavor, and true (1) otherwise.
\<close>

theorem bootstrapping_by_validity_interval:
  "networkstatus_consensus_is_bootstrapping e s now =
     (if (case networkstatus_get_latest_consensus_by_flavor s (usable_consensus_flavor e) of
            None \<Rightarrow> False
          | Some c \<Rightarrow> valid_after c - 24 * 60 * 60 \<le> now \<and> now \<le> valid_until c + 24 * 60 * 60)
         \<or> parked s (usable_consensus_flavor e) \<noteq> None
      then 0 else 1)"
  by (auto simp: networkstatus_consensus_is_bootstrapping_def
                networkstatus_get_reasonably_live_consensus_def
                networkstatus_consensus_reasonably_live_def
                networkstatus_valid_after_is_reasonably_live_def
                networkstatus_valid_until_is_reasonably_live_def
                REASONABLY_LIVE_TIME_def consensus_is_waiting_for_certs_def parked_def
           split: option.splits)

theorem bootstrapping_by_validity_interval_witness:
  "networkstatus_consensus_is_bootstrapping (toy_env 92000) (holding (doc 2000 ''K'' digest_a))
     92000 = 0
   \<and> networkstatus_consensus_is_bootstrapping (toy_env 100000)
       (holding (doc 2000 ''K'' digest_a)) 100000 = 1"
  using bootstrapping_by_validity_interval
          [of "toy_env 92000" "holding (doc 2000 ''K'' digest_a)" 92000]
        bootstrapping_by_validity_interval
          [of "toy_env 100000" "holding (doc 2000 ''K'' digest_a)" 100000]
  by (simp add: networkstatus_get_latest_consensus_by_flavor_def usable_consensus_flavor_def
                toy_env_def holding_def fresh_start_def doc_def parked_def nothing_waiting_def)

text \<open>
  The claim C8 as written calls a document reasonably live when its valid-after is
  within 24 hours of now. The registry holds a document valid from 0 to 10800 and
  nothing is parked; at 90000 the valid-after is more than 24 hours back, so the claim
  has the node bootstrapping, and the code answers 0: the valid-until is less than 24
  hours back.
\<close>

theorem bootstrapping_counterexample:
  "networkstatus_consensus_is_bootstrapping (toy_env 90000) (holding (doc 0 ''K'' digest_a))
     90000 = 0
   \<and> networkstatus_get_latest_consensus_by_flavor (holding (doc 0 ''K'' digest_a))
       (usable_consensus_flavor (toy_env 90000)) = Some (doc 0 ''K'' digest_a)
   \<and> parked (holding (doc 0 ''K'' digest_a)) (usable_consensus_flavor (toy_env 90000)) = None
   \<and> \<not> (90000 - 24 * 60 * 60 \<le> valid_after (doc 0 ''K'' digest_a)
         \<and> valid_after (doc 0 ''K'' digest_a) \<le> 90000 + 24 * 60 * 60)"
  by code_simp

section \<open>Reloading from the cache: the files removed\<close>

text \<open>
  Every reload that reads its file and returns from
  \<open>networkstatus_set_current_consensus\<close> removes the two fixed paths.
\<close>

lemma reload_removes_fixed_paths:
  assumes "reload_consensus_from_file e s fname flavor_name flags = Inr (rv, s')"
    and "maybe_decrypt_consensus_file (files s) fname = (Some real_filename, fs)"
    and "fs real_filename = Some body"
  shows "files s' ''/home/mahdi/.tor/unverified-consensus.tmp'' = None
         \<and> files s' ''/home/mahdi/.tor/cached-consensus.tmp'' = None"
  using assms
  by (auto simp: reload_consensus_from_file_def tor_mmap_file_def unlink_def
           split: sum.splits prod.splits)

text \<open>
  C9, the code at a reload of the microdesc cache file of the cache directory
  \<open>/var/lib/tor\<close>, on a disk that also holds \<open>/home/mahdi/.tor/cached-consensus.tmp\<close>:
  after the reload that file, which is no cache file of the flavor, is gone, and the
  decoded copy that the reload wrote beside the cache file is still there.
\<close>

theorem reload_unlinks_paths_under_home:
  "files cached_disk ''/home/mahdi/.tor/cached-consensus.tmp'' = Some [0x6B, 0x65, 0x65, 0x70]
   \<and> files_after (reload_consensus_from_file (toy_env 3500) cached_disk
         ''/var/lib/tor/cached-microdesc-consensus'' ''microdesc'' from_cache_flags)
       ''/home/mahdi/.tor/cached-consensus.tmp'' = Some None
   \<and> files_after (reload_consensus_from_file (toy_env 3500) cached_disk
         ''/var/lib/tor/cached-microdesc-consensus'' ''microdesc'' from_cache_flags)
       ''/var/lib/tor/cached-microdesc-consensus.tmp'' = Some (Some body_2000)"
  by code_simp

section \<open>The signature validator: the proofs\<close>

lemma recognized_gives_authority:
  "trusteddirserver_get_by_v3_auth_digest e d \<noteq> None \<Longrightarrow> 0 < get_n_authorities e"
proof -
  assume "trusteddirserver_get_by_v3_auth_digest e d \<noteq> None"
  then obtain ds where "find (\<lambda>ds. v3_identity_digest ds = d \<and> is_v3_dirinfo ds)
                          (trusted_dir_servers e) = Some ds"
    by (auto simp: trusteddirserver_get_by_v3_auth_digest_def)
  then have "ds \<in> set (trusted_dir_servers e) \<and> is_v3_dirinfo ds"
    by (auto simp: find_Some_iff)
  then have "filter is_v3_dirinfo (trusted_dir_servers e) \<noteq> []"
    by (auto simp: filter_empty_conv)
  then show ?thesis by (simp add: get_n_authorities_def)
qed

lemma n_authorities_nonneg: "0 \<le> get_n_authorities e"
  by (simp add: get_n_authorities_def)

lemma check_one_sig_missing:
  assumes "check_one_sig e c voter t sg = Inr (t', sg')"
    and "missing_key_here t' \<noteq> missing_key_here t"
  shows "0 < get_n_authorities e"
proof -
  from assms have "trusteddirserver_get_by_v3_auth_digest e (sig_identity_digest sg) \<noteq> None"
    by (auto simp: check_one_sig_def Let_def count_flags_def note_missing_key_def
             split: if_splits option.splits prod.splits)
  then show ?thesis by (rule recognized_gives_authority)
qed

lemma check_sigs_missing:
  "check_sigs e c voter t sgs = Inr (t', sgs') \<Longrightarrow> missing_key_here t' \<noteq> missing_key_here t
     \<Longrightarrow> 0 < get_n_authorities e"
proof (induction sgs arbitrary: t t' sgs')
  case Nil
  then show ?case by simp
next
  case (Cons sg rest)
  from Cons.prems(1) obtain t1 sg1 rest1 where
    one: "check_one_sig e c voter t sg = Inr (t1, sg1)" and
    more: "check_sigs e c voter t1 rest = Inr (t', rest1)"
    by (auto split: sum.splits prod.splits)
  show ?case
  proof (cases "missing_key_here t1 = missing_key_here t")
    case True
    with Cons.prems(2) have "missing_key_here t' \<noteq> missing_key_here t1" by simp
    with more show ?thesis by (rule Cons.IH)
  next
    case False
    with one show ?thesis by (rule check_one_sig_missing)
  qed
qed

lemma count_voter_missing:
  "n_missing_key (count_voter t n) \<noteq> n_missing_key n \<Longrightarrow> missing_key_here t \<noteq> 0"
  by (auto simp: count_voter_def Let_def split: if_splits)

lemma check_voters_missing:
  "check_voters e c n vs = Inr (n', vs') \<Longrightarrow> n_missing_key n' \<noteq> n_missing_key n
     \<Longrightarrow> 0 < get_n_authorities e"
proof (induction vs arbitrary: n n' vs')
  case Nil
  then show ?case by simp
next
  case (Cons voter rest)
  from Cons.prems(1) obtain t sigs1 rest1 where
    one: "check_sigs e c voter no_sigs_seen (sigs voter) = Inr (t, sigs1)" and
    more: "check_voters e c (count_voter t n) rest = Inr (n', rest1)"
    by (auto split: sum.splits prod.splits)
  show ?case
  proof (cases "n_missing_key (count_voter t n) = n_missing_key n")
    case True
    with Cons.prems(2) have "n_missing_key n' \<noteq> n_missing_key (count_voter t n)" by simp
    with more show ?thesis by (rule Cons.IH)
  next
    case False
    then have "missing_key_here t \<noteq> missing_key_here no_sigs_seen"
      by (simp add: count_voter_missing no_sigs_seen_def)
    with one show ?thesis by (rule check_sigs_missing)
  qed
qed

lemma check_one_sig_returns:
  "sig_identity_digest sg = identity_digest voter \<Longrightarrow> \<exists>r. check_one_sig e c voter t sg = Inr r"
  by (auto simp: check_one_sig_def Let_def split: option.splits prod.splits)

lemma check_sigs_returns:
  "list_all (\<lambda>sg. sig_identity_digest sg = identity_digest voter) sgs
     \<Longrightarrow> \<exists>r. check_sigs e c voter t sgs = Inr r"
proof (induction sgs arbitrary: t)
  case Nil
  then show ?case by simp
next
  case (Cons sg rest)
  then obtain t1 sg1 where one: "check_one_sig e c voter t sg = Inr (t1, sg1)"
    using check_one_sig_returns [of sg voter e c t] by auto
  from Cons.prems have "list_all (\<lambda>sg. sig_identity_digest sg = identity_digest voter) rest"
    by simp
  from Cons.IH [OF this] obtain r where "check_sigs e c voter t1 rest = Inr r" by blast
  with one show ?case by (cases r) auto
qed

lemma check_voters_returns:
  "list_all (\<lambda>voter. list_all (\<lambda>sg. sig_identity_digest sg = identity_digest voter)
                          (sigs voter)) vs
     \<Longrightarrow> \<exists>r. check_voters e c n vs = Inr r"
proof (induction vs arbitrary: n)
  case Nil
  then show ?case by simp
next
  case (Cons voter rest)
  then obtain t sigs1 where one: "check_sigs e c voter no_sigs_seen (sigs voter) = Inr (t, sigs1)"
    using check_sigs_returns [of voter "sigs voter" e c no_sigs_seen] by auto
  from Cons.prems have "list_all (\<lambda>voter. list_all (\<lambda>sg. sig_identity_digest sg = identity_digest voter)
                          (sigs voter)) rest" by simp
  from Cons.IH [OF this] obtain r where "check_voters e c (count_voter t n) rest = Inr r"
    by blast
  with one show ?case by (cases r) auto
qed

lemma signature_verdict_cases:
  "signature_verdict N n = 1 \<or> signature_verdict N n = 0 \<or> signature_verdict N n = - 1
     \<or> signature_verdict N n = - 2"
  by (simp add: signature_verdict_def Let_def)

text \<open>
  What the validator returns, from its own counts, on every document: it returns when
  the document is a consensus whose signatures carry the identity of their voter, and
  then 1 exactly when good = N, 0 exactly when T \<le> good and good \<noteq> N, -1 exactly
  when good < T and good + missing-key \<ge> T, and -2 otherwise, with N the number of
  recognized v3 authorities and T = N div 2 + 1.
\<close>

lemma verdict_by_counts:
  "(ns_type c = NS_TYPE_CONSENSUS \<and> sigs_match_voters c
      \<longrightarrow> (\<exists>r c'. networkstatus_check_consensus_signature e c = Inr (r, c')))
   \<and> (networkstatus_check_consensus_signature e c = Inr (r, c')
      \<longrightarrow> (\<exists>n. consensus_counts e c = Some n
            \<and> (r = 1 \<or> r = 0 \<or> r = - 1 \<or> r = - 2)
            \<and> (r = 1) = (n_good n = get_n_authorities e)
            \<and> (r = 0) = (get_n_authorities e div 2 + 1 \<le> n_good n
                           \<and> n_good n \<noteq> get_n_authorities e)
            \<and> (n_good n \<le> get_n_authorities e
                 \<longrightarrow> (r = 0) = (get_n_authorities e div 2 + 1 \<le> n_good n
                                  \<and> n_good n < get_n_authorities e))
            \<and> (r = - 1) = (n_good n < get_n_authorities e div 2 + 1
                             \<and> get_n_authorities e div 2 + 1 \<le> n_good n + n_missing_key n)))"
proof (intro conjI impI)
  assume "ns_type c = NS_TYPE_CONSENSUS \<and> sigs_match_voters c"
  then have ty: "ns_type c = NS_TYPE_CONSENSUS"
    and "list_all (\<lambda>voter. list_all (\<lambda>sg. sig_identity_digest sg = identity_digest voter)
                          (sigs voter)) (voters c)"
    by (simp_all add: sigs_match_voters_def)
  from check_voters_returns [OF this(2)] obtain n vs
    where "check_voters e c no_voters_seen (voters c) = Inr (n, vs)" by fastforce
  with ty show "\<exists>r c'. networkstatus_check_consensus_signature e c = Inr (r, c')"
    by (simp add: networkstatus_check_consensus_signature_def)
next
  assume ret: "networkstatus_check_consensus_signature e c = Inr (r, c')"
  then obtain n vs where
    cv: "check_voters e c no_voters_seen (voters c) = Inr (n, vs)" and
    r: "r = signature_verdict (get_n_authorities e) n"
    by (auto simp: networkstatus_check_consensus_signature_def split: if_splits sum.splits)
  have counts: "consensus_counts e c = Some n"
    using cv by (simp add: consensus_counts_def)
  have N0: "0 \<le> get_n_authorities e" by (rule n_authorities_nonneg)
  have miss: "n_missing_key n = 0 \<or> 0 < get_n_authorities e"
    using check_voters_missing [OF cv] by (auto simp: no_voters_seen_def)
  have c1: "(r = 1) = (n_good n = get_n_authorities e)"
    by (simp add: r signature_verdict_def Let_def)
  have c0: "(r = 0) = (get_n_authorities e div 2 + 1 \<le> n_good n
                       \<and> n_good n \<noteq> get_n_authorities e)"
    by (auto simp: r signature_verdict_def Let_def)
  have cm: "(r = - 1) = (n_good n < get_n_authorities e div 2 + 1
                        \<and> get_n_authorities e div 2 + 1 \<le> n_good n + n_missing_key n)"
    using N0 miss by (auto simp: r signature_verdict_def Let_def)
  have cases: "r = 1 \<or> r = 0 \<or> r = - 1 \<or> r = - 2"
    unfolding r by (rule signature_verdict_cases)
  show "\<exists>n. consensus_counts e c = Some n
            \<and> (r = 1 \<or> r = 0 \<or> r = - 1 \<or> r = - 2)
            \<and> (r = 1) = (n_good n = get_n_authorities e)
            \<and> (r = 0) = (get_n_authorities e div 2 + 1 \<le> n_good n
                           \<and> n_good n \<noteq> get_n_authorities e)
            \<and> (n_good n \<le> get_n_authorities e
                 \<longrightarrow> (r = 0) = (get_n_authorities e div 2 + 1 \<le> n_good n
                                  \<and> n_good n < get_n_authorities e))
            \<and> (r = - 1) = (n_good n < get_n_authorities e div 2 + 1
                             \<and> get_n_authorities e div 2 + 1 \<le> n_good n + n_missing_key n)"
    using counts cases c1 c0 cm by auto
qed


lemma check_one_sig_good:
  assumes "check_one_sig e c voter t sg = Inr (t', sg')"
    and "sig_identity_digest sg = identity_digest voter"
    and "good_flag_recognized e sg"
    and "good_here t' \<noteq> good_here t"
  shows "trusteddirserver_get_by_v3_auth_digest e (identity_digest voter) \<noteq> None"
  using assms
  by (auto simp: check_one_sig_def Let_def count_flags_def note_missing_key_def
                 good_flag_recognized_def
           split: if_splits option.splits prod.splits)

lemma check_sigs_good:
  "check_sigs e c voter t sgs = Inr (t', sgs') \<Longrightarrow>
   list_all (\<lambda>sg. sig_identity_digest sg = identity_digest voter) sgs \<Longrightarrow>
   list_all (good_flag_recognized e) sgs \<Longrightarrow>
   good_here t' \<noteq> good_here t \<Longrightarrow>
   trusteddirserver_get_by_v3_auth_digest e (identity_digest voter) \<noteq> None"
proof (induction sgs arbitrary: t t' sgs')
  case Nil
  then show ?case by simp
next
  case (Cons sg rest)
  from Cons.prems(1) obtain t1 sg1 rest1 where
    one: "check_one_sig e c voter t sg = Inr (t1, sg1)" and
    more: "check_sigs e c voter t1 rest = Inr (t', rest1)"
    by (auto split: sum.splits prod.splits)
  from Cons.prems(2,3) have h1: "sig_identity_digest sg = identity_digest voter"
    and h2: "good_flag_recognized e sg"
    and r1: "list_all (\<lambda>sg. sig_identity_digest sg = identity_digest voter) rest"
    and r2: "list_all (good_flag_recognized e) rest"
    by simp_all
  show ?case
  proof (cases "good_here t1 = good_here t")
    case True
    with Cons.prems(4) have "good_here t' \<noteq> good_here t1" by simp
    from Cons.IH [OF more r1 r2 this] show ?thesis .
  next
    case False
    from check_one_sig_good [OF one h1 h2 False] show ?thesis .
  qed
qed

lemma count_voter_good:
  "n_good (count_voter t n) = n_good n + (if good_here t \<noteq> 0 then 1 else 0)"
  by (simp add: count_voter_def Let_def)

lemma check_voters_good:
  "check_voters e c n vs = Inr (n', vs') \<Longrightarrow>
   list_all (\<lambda>voter. list_all (\<lambda>sg. sig_identity_digest sg = identity_digest voter)
                        (sigs voter)) vs \<Longrightarrow>
   list_all (\<lambda>voter. list_all (good_flag_recognized e) (sigs voter)) vs \<Longrightarrow>
   n_good n' \<le> n_good n
     + int (length (filter (\<lambda>v. trusteddirserver_get_by_v3_auth_digest e (identity_digest v)
                                  \<noteq> None) vs))"
proof (induction vs arbitrary: n n' vs')
  case Nil
  then show ?case by simp
next
  case (Cons voter rest)
  from Cons.prems(1) obtain t sigs1 rest1 where
    one: "check_sigs e c voter no_sigs_seen (sigs voter) = Inr (t, sigs1)" and
    more: "check_voters e c (count_voter t n) rest = Inr (n', rest1)"
    by (auto split: sum.splits prod.splits)
  from Cons.prems(2,3) have
    h1: "list_all (\<lambda>sg. sig_identity_digest sg = identity_digest voter) (sigs voter)"
    and h2: "list_all (good_flag_recognized e) (sigs voter)"
    and r1: "list_all (\<lambda>voter. list_all (\<lambda>sg. sig_identity_digest sg = identity_digest voter)
                                   (sigs voter)) rest"
    and r2: "list_all (\<lambda>voter. list_all (good_flag_recognized e) (sigs voter)) rest"
    by simp_all
  note ih = Cons.IH [OF more r1 r2]
  show ?case
  proof (cases "good_here t = 0")
    case True
    with ih show ?thesis by (simp add: count_voter_good)
  next
    case False
    then have "good_here t \<noteq> good_here no_sigs_seen" by (simp add: no_sigs_seen_def)
    from check_sigs_good [OF one h1 h2 this] False ih show ?thesis
      by (simp add: count_voter_good)
  qed
qed

lemma recognized_in_list:
  "trusteddirserver_get_by_v3_auth_digest e d \<noteq> None \<Longrightarrow>
     d \<in> set (map v3_identity_digest (filter is_v3_dirinfo (trusted_dir_servers e)))"
proof -
  assume "trusteddirserver_get_by_v3_auth_digest e d \<noteq> None"
  then obtain ds where "find (\<lambda>ds. v3_identity_digest ds = d \<and> is_v3_dirinfo ds)
                          (trusted_dir_servers e) = Some ds"
    by (auto simp: trusteddirserver_get_by_v3_auth_digest_def)
  then have "ds \<in> set (trusted_dir_servers e) \<and> is_v3_dirinfo ds \<and> v3_identity_digest ds = d"
    by (auto simp: find_Some_iff)
  then show ?thesis by force
qed

lemma distinct_recognized_bounded:
  assumes "distinct (map identity_digest vs)"
  shows "int (length (filter (\<lambda>v. trusteddirserver_get_by_v3_auth_digest e (identity_digest v)
                                  \<noteq> None) vs)) \<le> get_n_authorities e"
proof -
  let ?P = "\<lambda>d. trusteddirserver_get_by_v3_auth_digest e d \<noteq> None"
  let ?ids = "filter ?P (map identity_digest vs)"
  let ?auth = "map v3_identity_digest (filter is_v3_dirinfo (trusted_dir_servers e))"
  have len: "length (filter (\<lambda>v. ?P (identity_digest v)) vs) = length ?ids"
    by (simp add: filter_map comp_def)
  have dist: "distinct ?ids" using assms by simp
  have sub: "set ?ids \<subseteq> set ?auth" using recognized_in_list [of e] by auto
  have c1: "card (set ?ids) = length ?ids" using dist by (rule distinct_card)
  have c2: "card (set ?ids) \<le> card (set ?auth)" using sub by (intro card_mono) simp_all
  have c3: "card (set ?auth) \<le> length ?auth" by (rule card_length)
  have c4: "length ?auth = length (filter is_v3_dirinfo (trusted_dir_servers e))" by simp
  from c1 c2 c3 c4 have "length ?ids \<le> length (filter is_v3_dirinfo (trusted_dir_servers e))"
    by linarith
  with len show ?thesis by (simp only: get_n_authorities_def of_nat_le_iff)
qed

text \<open>
  On a document whose voters are well formed (no identity listed twice, every signature
  under the voter whose identity it carries, every signature already flagged good of a
  recognized authority) the validator returns, the voters counted good are at most N,
  and the result is as the claim C2 states it: FullyVerified (1) exactly when good = N,
  QuorumVerified (0) exactly when T \<le> good < N, NeedsMoreCerts (-1) exactly when
  good < T and good + missing-key \<ge> T, Insufficient (-2) otherwise.
\<close>

lemma verdict_on_distinct_voters:
  assumes ty: "ns_type c = NS_TYPE_CONSENSUS" and wf: "voters_well_formed e c"
  shows "\<exists>r c' n. networkstatus_check_consensus_signature e c = Inr (r, c')
           \<and> consensus_counts e c = Some n
           \<and> n_good n \<le> get_n_authorities e
           \<and> (r = 1) = (n_good n = get_n_authorities e)
           \<and> (r = 0) = (get_n_authorities e div 2 + 1 \<le> n_good n
                          \<and> n_good n < get_n_authorities e)
           \<and> (r = - 1) = (n_good n < get_n_authorities e div 2 + 1
                            \<and> get_n_authorities e div 2 + 1 \<le> n_good n + n_missing_key n)
           \<and> (r = - 2) = (n_good n \<noteq> get_n_authorities e
                            \<and> \<not> (get_n_authorities e div 2 + 1 \<le> n_good n
                                   \<and> n_good n < get_n_authorities e)
                            \<and> \<not> (n_good n < get_n_authorities e div 2 + 1
                                   \<and> get_n_authorities e div 2 + 1
                                       \<le> n_good n + n_missing_key n))"
proof -
  from wf have dist: "distinct (map identity_digest (voters c))"
    and match: "sigs_match_voters c" and flagged: "flagged_good_recognized e c"
    by (simp_all add: voters_well_formed_def)
  from verdict_by_counts [of c e] ty match obtain r c' where
    ret: "networkstatus_check_consensus_signature e c = Inr (r, c')" by blast
  from verdict_by_counts [of c e r c'] ret obtain n where
    counts: "consensus_counts e c = Some n"
    and cases: "r = 1 \<or> r = 0 \<or> r = - 1 \<or> r = - 2"
    and c1: "(r = 1) = (n_good n = get_n_authorities e)"
    and c0: "(r = 0) = (get_n_authorities e div 2 + 1 \<le> n_good n
                         \<and> n_good n \<noteq> get_n_authorities e)"
    and cm: "(r = - 1) = (n_good n < get_n_authorities e div 2 + 1
                          \<and> get_n_authorities e div 2 + 1 \<le> n_good n + n_missing_key n)"
    by blast
  from counts obtain vs' where
    cv: "check_voters e c no_voters_seen (voters c) = Inr (n, vs')"
    by (auto simp: consensus_counts_def split: sum.splits)
  from check_voters_good [OF cv] match flagged
  have "n_good n \<le> int (length (filter
          (\<lambda>v. trusteddirserver_get_by_v3_auth_digest e (identity_digest v) \<noteq> None)
          (voters c)))"
    by (simp add: sigs_match_voters_def flagged_good_recognized_def no_voters_seen_def)
  with distinct_recognized_bounded [OF dist, of e]
  have le: "n_good n \<le> get_n_authorities e" by simp
  from le cases c1 c0 cm have
    "(r = 0) = (get_n_authorities e div 2 + 1 \<le> n_good n \<and> n_good n < get_n_authorities e)"
    "(r = - 2) = (n_good n \<noteq> get_n_authorities e
                   \<and> \<not> (get_n_authorities e div 2 + 1 \<le> n_good n
                          \<and> n_good n < get_n_authorities e)
                   \<and> \<not> (n_good n < get_n_authorities e div 2 + 1
                          \<and> get_n_authorities e div 2 + 1 \<le> n_good n + n_missing_key n))"
    by auto
  with ret counts le c1 cm show ?thesis by blast
qed



section \<open>Setting the current consensus: the proofs\<close>

lemma parse_flavor_name_inv:
  "networkstatus_parse_flavor_name fn = Some f \<Longrightarrow> fn = networkstatus_get_flavor_name f"
  by (auto simp: networkstatus_parse_flavor_name_def networkstatus_get_flavor_name_def
           split: if_splits)

lemma check_signature_keeps_fields:
  assumes "networkstatus_check_consensus_signature e c = Inr (r, c')"
  shows "valid_after c' = valid_after c \<and> valid_until c' = valid_until c
         \<and> flavor c' = flavor c \<and> digests c' = digests c \<and> net_params c' = net_params c"
  using assms
  by (auto simp: networkstatus_check_consensus_signature_def split: if_splits sum.splits)

lemma set_current_consensus_unfold:
  "networkstatus_set_current_consensus e s body fn flags =
     (case networkstatus_parse_flavor_name fn of
        None \<Rightarrow> Inr (- 2, Unrecognized_flavor, s)
      | Some flav0 \<Rightarrow>
          (case networkstatus_parse_vote_from_string e body of
             None \<Rightarrow> Inr (- 2, Unparseable, s)
           | Some c \<Rightarrow>
               if NSSET_FROM_CACHE flags \<and> \<not> NSSET_WAS_WAITING_FOR_CERTS flags
                  \<and> protocols_should_exit e c
               then Inl Process_exit
               else if flavor c \<noteq> flav0 \<and> NSSET_REQUIRE_FLAVOR flags
               then Inr (- 1, Unexpected_flavor, s)
               else if flavor c \<noteq> usable_consensus_flavor e
                       \<and> \<not> we_want_to_fetch_flavor e (flavor c)
               then Inr (- 1, Uninteresting_flavor, s)
               else if NSSET_FROM_CACHE flags \<and> \<not> NSSET_ACCEPT_OBSOLETE flags
                       \<and> valid_until c < approx_time e - OLD_ROUTER_DESC_MAX_AGE e
               then Inr (- 1, Expired_from_cache, s)
               else replace_current e s body flags (flavor c)
                      (networkstatus_get_flavor_name (flavor c)) c))"
  by (auto simp: networkstatus_set_current_consensus_def Let_def
           dest: parse_flavor_name_inv split: option.splits)

lemma replace_current_unfold:
  "replace_current e s body flags flav (networkstatus_get_flavor_name flav) c =
     (let cur = networkstatus_get_latest_consensus_by_flavor s flav;
          cva = (case cur of None \<Rightarrow> 0 | Some x \<Rightarrow> valid_after x)
      in if map_option digests cur = Some (digests c) then Inr (- 1, Already_have, s)
         else if cva \<noteq> 0 \<and> valid_after c \<le> cva then Inr (- 1, At_least_as_old, s)
         else
           (case networkstatus_check_consensus_signature e c of
              Inl f \<Rightarrow> Inl f
            | Inr (r, c') \<Rightarrow>
                if r < 0
                then Inr (not_signed_enough e s body flags flav (unverified_fname e flav) cva r c')
                else install_verified e s body flags flav (cached_fname e flav)
                       (unverified_fname e flav) c'))"
  by (cases flav)
     (auto simp: replace_current_def networkstatus_get_flavor_name_def
        networkstatus_get_latest_consensus_by_flavor_def cached_fname_def unverified_fname_def
        networkstatus_get_cache_fname_def Let_def
        split: sum.splits)

lemma install_verified_effect:
  assumes "install_verified e s body flags flav cf uf c = Inr (rv, out, s')"
  shows "rv = 0 \<and> out = Consensus_set
    \<and> networkstatus_get_latest_consensus_by_flavor s' flav = Some c
    \<and> (\<forall>f. f \<noteq> flav \<longrightarrow> networkstatus_get_latest_consensus_by_flavor s' f
                          = networkstatus_get_latest_consensus_by_flavor s f)
    \<and> (\<forall>f. f \<noteq> flav \<longrightarrow> consensus_waiting_for_certs s' f = consensus_waiting_for_certs s f)
    \<and> (case parked s flav of
          None \<Rightarrow> parked s' flav = None
        | Some w \<Rightarrow> if valid_after w \<le> valid_after c then parked s' flav = None
                   else consensus_waiting_for_certs s' flav = consensus_waiting_for_certs s flav)
    \<and> (\<not> NSSET_FROM_CACHE flags \<longrightarrow> files s' cf = Some (xor_encrypt body))"
  using assms
  by (cases flav)
     (auto simp: install_verified_def Let_def set_current_def parked_def
                 networkstatus_get_latest_consensus_by_flavor_def write_bytes_to_file_def
           split: if_splits option.splits consensus_flavor.splits)

lemma not_signed_enough_effect:
  assumes "not_signed_enough e s body flags flav uf cva r c = (rv, out, s')"
  shows "current_ns_consensus s' = current_ns_consensus s
    \<and> current_md_consensus s' = current_md_consensus s
    \<and> (if r = - 1 \<and> (cva = 0 \<or> cva < valid_after c)
        then rv = 0 \<and> out = Waiting_for_certs
             \<and> consensus_waiting_for_certs s' =
                 (consensus_waiting_for_certs s)
                   (flav := \<lparr>consensus = Some c, set_at = approx_time e, dl_failed = 0\<rparr>)
             \<and> (\<not> NSSET_FROM_CACHE flags \<longrightarrow> files s' uf = Some (xor_encrypt body))
        else rv < 0 \<and> consensus_waiting_for_certs s' = consensus_waiting_for_certs s
             \<and> out = (if r = - 1 then Never_the_latest else Not_enough_signatures))"
  using assms
  by (auto simp: not_signed_enough_def Let_def write_bytes_to_file_def split: if_splits)

lemma step_elim [consumes 1, case_names rejected unsigned verified]:
  assumes "networkstatus_set_current_consensus e s body fn flags = Inr (rv, out, s')"
  obtains
    (rejected) "s' = s" and "rv < 0" and
      "out \<in> {Unrecognized_flavor, Unparseable, Unexpected_flavor, Uninteresting_flavor,
                Expired_from_cache, Already_have, At_least_as_old}"
  | (unsigned) c r c' where
      "networkstatus_parse_vote_from_string e body = Some c" and
      "case networkstatus_get_latest_consensus_by_flavor s (flavor c) of
         None \<Rightarrow> True
       | Some cur \<Rightarrow> digests cur \<noteq> digests c
                    \<and> (valid_after cur = 0 \<or> valid_after cur < valid_after c)" and
      "networkstatus_check_consensus_signature e c = Inr (r, c')" and "r < 0" and
      "not_signed_enough e s body flags (flavor c) (unverified_fname e (flavor c))
         (case networkstatus_get_latest_consensus_by_flavor s (flavor c) of
            None \<Rightarrow> 0 | Some x \<Rightarrow> valid_after x) r c' = (rv, out, s')"
  | (verified) c r c' where
      "networkstatus_parse_vote_from_string e body = Some c" and
      "case networkstatus_get_latest_consensus_by_flavor s (flavor c) of
         None \<Rightarrow> True
       | Some cur \<Rightarrow> digests cur \<noteq> digests c
                    \<and> (valid_after cur = 0 \<or> valid_after cur < valid_after c)" and
      "networkstatus_check_consensus_signature e c = Inr (r, c')" and "0 \<le> r" and
      "install_verified e s body flags (flavor c) (cached_fname e (flavor c))
         (unverified_fname e (flavor c)) c' = Inr (rv, out, s')"
  using assms
  unfolding set_current_consensus_unfold replace_current_unfold Let_def
  by (auto split: option.splits if_splits sum.splits prod.splits)


lemma xor_changes_byte: "(b::8 word) XOR simple_key \<noteq> b"
proof
  assume "b XOR simple_key = b"
  then have "(b XOR simple_key) XOR b = b XOR b" by simp
  then have "simple_key = 0" by (simp add: xor.commute xor.left_commute)
  then show False by (simp add: simple_key_def)
qed

lemma xor_encrypt_changes: "body \<noteq> [] \<Longrightarrow> xor_encrypt body \<noteq> body"
  by (cases body) (auto simp: xor_encrypt_def xor_changes_byte)

lemma step_registry:
  assumes "networkstatus_set_current_consensus e s body fn flags = Inr (rv, out, s')"
  shows "networkstatus_get_latest_consensus_by_flavor s' f
           = networkstatus_get_latest_consensus_by_flavor s f
         \<or> (\<exists>c'. networkstatus_get_latest_consensus_by_flavor s' f = Some c'
                \<and> (case networkstatus_get_latest_consensus_by_flavor s f of
                       None \<Rightarrow> True
                     | Some cur \<Rightarrow> valid_after cur = 0 \<or> valid_after cur < valid_after c'))"
  using assms
proof (cases rule: step_elim)
  case rejected
  then show ?thesis by simp
next
  case (unsigned c r c')
  from not_signed_enough_effect [OF unsigned(5)] show ?thesis
    by (simp add: networkstatus_get_latest_consensus_by_flavor_def split: consensus_flavor.splits)
next
  case (verified c r c')
  note eff = install_verified_effect [OF verified(5)]
  note keep = check_signature_keeps_fields [OF verified(3)]
  show ?thesis
  proof (cases "f = flavor c")
    case True
    with eff keep verified(2) show ?thesis by (auto split: option.splits)
  next
    case False
    with eff show ?thesis by simp
  qed
qed

lemma run_installs_monotone:
  "run_installs calls s = Some s' \<Longrightarrow>
   networkstatus_get_latest_consensus_by_flavor s f = Some a \<Longrightarrow> 0 < valid_after a \<Longrightarrow>
   \<exists>b. networkstatus_get_latest_consensus_by_flavor s' f = Some b
        \<and> (b = a \<or> valid_after a < valid_after b)"
proof (induction calls arbitrary: s a)
  case Nil
  then show ?case by simp
next
  case (Cons call calls)
  obtain e body fn flags where call: "call = (e, body, fn, flags)"
    by (cases call) auto
  from Cons.prems(1) call obtain rv out s1 where
    step: "networkstatus_set_current_consensus e s body fn flags = Inr (rv, out, s1)" and
    rest: "run_installs calls s1 = Some s'"
    by (auto split: sum.splits prod.splits)
  from step_registry [OF step, of f] Cons.prems(2,3) obtain a1 where
    a1: "networkstatus_get_latest_consensus_by_flavor s1 f = Some a1" and
    le: "a1 = a \<or> valid_after a < valid_after a1"
    by auto
  from le Cons.prems(3) have pos: "0 < valid_after a1" by auto
  from Cons.IH [OF rest a1 pos] obtain b where
    "networkstatus_get_latest_consensus_by_flavor s' f = Some b"
    "b = a1 \<or> valid_after a1 < valid_after b"
    by blast
  with le show ?case by auto
qed

lemma not_newer_rejected:
  assumes "networkstatus_parse_vote_from_string e body = Some c"
    and "networkstatus_get_latest_consensus_by_flavor s (flavor c) = Some cur"
    and "valid_after cur \<noteq> 0" and "valid_after c \<le> valid_after cur"
  shows "networkstatus_set_current_consensus e s body fn flags = Inl Process_exit
         \<or> (\<exists>rv out. networkstatus_set_current_consensus e s body fn flags = Inr (rv, out, s)
                \<and> rv < 0
                \<and> out \<in> {Unrecognized_flavor, Unexpected_flavor, Uninteresting_flavor,
                           Expired_from_cache, Already_have, At_least_as_old})"
  using assms
  unfolding set_current_consensus_unfold replace_current_unfold Let_def
  by (auto split: option.splits)

text \<open>
  C3 (as amended). An install whose document's valid-after is less than or equal to the
  valid-after of the document currently installed for its flavor is rejected and leaves
  the registry, and the whole state, unchanged, provided the installed valid-after is
  not 0: the call returns a negative value, with "at least as old as the one we have"
  unless an earlier check (flavor, interest, expiry, same digests) rejects it first, or
  the protocol gate ends the process. Consequently, over every sequence of install
  calls and for each flavor, a registry that holds a document with a positive
  valid-after holds afterwards the same document or one with a strictly greater
  valid-after.
\<close>

theorem install_monotone:
  "(networkstatus_parse_vote_from_string e body = Some c
      \<and> networkstatus_get_latest_consensus_by_flavor s (flavor c) = Some cur
      \<and> valid_after cur \<noteq> 0 \<and> valid_after c \<le> valid_after cur
    \<longrightarrow> networkstatus_set_current_consensus e s body fn flags = Inl Process_exit
        \<or> (\<exists>rv out. networkstatus_set_current_consensus e s body fn flags = Inr (rv, out, s)
               \<and> rv < 0
               \<and> out \<in> {Unrecognized_flavor, Unexpected_flavor, Uninteresting_flavor,
                          Expired_from_cache, Already_have, At_least_as_old}))
   \<and> (run_installs calls s = Some s'
        \<and> networkstatus_get_latest_consensus_by_flavor s f = Some a \<and> 0 < valid_after a
      \<longrightarrow> (\<exists>b. networkstatus_get_latest_consensus_by_flavor s' f = Some b
                \<and> (b = a \<or> valid_after a < valid_after b)))"
  using not_newer_rejected [of e body c s cur fn flags]
        run_installs_monotone [of calls s s' f a]
  by blast

theorem install_monotone_witness:
  "\<exists>rv. networkstatus_set_current_consensus (toy_env 3500) (holding (doc 3000 ''K'' digest_b))
           body_2000 ''microdesc'' from_network
         = Inr (rv, At_least_as_old, holding (doc 3000 ''K'' digest_b))
        \<and> rv < 0"
proof -
  have p: "networkstatus_parse_vote_from_string (toy_env 3500) body_2000
             = Some (doc 2000 ''K'' digest_a)"
    by code_simp
  have c: "networkstatus_get_latest_consensus_by_flavor (holding (doc 3000 ''K'' digest_b))
             (flavor (doc 2000 ''K'' digest_a)) = Some (doc 3000 ''K'' digest_b)"
    by code_simp
  have v: "valid_after (doc 3000 ''K'' digest_b) \<noteq> 0
           \<and> valid_after (doc 2000 ''K'' digest_a) \<le> valid_after (doc 3000 ''K'' digest_b)"
    by code_simp
  have o: "outcome_of (networkstatus_set_current_consensus (toy_env 3500)
             (holding (doc 3000 ''K'' digest_b)) body_2000 ''microdesc'' from_network)
           = Some At_least_as_old"
    by code_simp
  from install_monotone [of "toy_env 3500" body_2000 "doc 2000 ''K'' digest_a"
         "holding (doc 3000 ''K'' digest_b)" "doc 3000 ''K'' digest_b" "''microdesc''"
         from_network "[]" "holding (doc 3000 ''K'' digest_b)" FLAV_MICRODESC
         "doc 3000 ''K'' digest_b"] p c v
  have "networkstatus_set_current_consensus (toy_env 3500) (holding (doc 3000 ''K'' digest_b))
          body_2000 ''microdesc'' from_network = Inl Process_exit
        \<or> (\<exists>rv out. networkstatus_set_current_consensus (toy_env 3500)
               (holding (doc 3000 ''K'' digest_b)) body_2000 ''microdesc'' from_network
               = Inr (rv, out, holding (doc 3000 ''K'' digest_b))
               \<and> rv < 0
               \<and> out \<in> {Unrecognized_flavor, Unexpected_flavor, Uninteresting_flavor,
                          Expired_from_cache, Already_have, At_least_as_old})"
    by blast
  with o show ?thesis
    by (auto simp: outcome_of_def)
qed

text \<open>
  The claim C3 as written has every install that is not newer rejected. The code reads
  a current valid-after of 0 as "no current consensus": with a document of valid-after
  0 installed, a second document of valid-after 0 and other digests is installed over
  it.
\<close>

theorem install_at_zero_counterexample:
  "map_option valid_after
       (networkstatus_get_latest_consensus_by_flavor (holding (doc 0 ''K'' digest_a))
          FLAV_MICRODESC) = Some 0
   \<and> map_option valid_after (networkstatus_parse_vote_from_string (toy_env 3500) body_zero_b)
       = Some 0
   \<and> outcome_of (networkstatus_set_current_consensus (toy_env 3500)
         (holding (doc 0 ''K'' digest_a)) body_zero_b ''microdesc'' from_network)
       = Some Consensus_set
   \<and> map_option (\<lambda>s. map_option digests
                       (networkstatus_get_latest_consensus_by_flavor s FLAV_MICRODESC))
         (state_of (networkstatus_set_current_consensus (toy_env 3500)
            (holding (doc 0 ''K'' digest_a)) body_zero_b ''microdesc'' from_network))
       = Some (Some \<lparr>d_sha1 = digest_b, d_sha256 = digest_b\<rparr>)
   \<and> map_option digests
         (networkstatus_get_latest_consensus_by_flavor (holding (doc 0 ''K'' digest_a))
            FLAV_MICRODESC) = Some \<lparr>d_sha1 = digest_a, d_sha256 = digest_a\<rparr>"
  by code_simp


text \<open>
  Where an accepted document that did not come from the cache is written: the cached
  file of its flavor when it is installed, the unverified file when it is parked.
\<close>

lemma accepted_body_written:
  assumes "networkstatus_set_current_consensus e s body fn flags = Inr (rv, out, s')"
    and "\<not> NSSET_FROM_CACHE flags"
    and "networkstatus_parse_vote_from_string e body = Some c"
  shows "(out = Consensus_set
            \<longrightarrow> files s' (cached_fname e (flavor c)) = Some (xor_encrypt body))
       \<and> (out = Waiting_for_certs
            \<longrightarrow> files s' (unverified_fname e (flavor c)) = Some (xor_encrypt body))"
  using assms(1)
proof (cases rule: step_elim)
  case rejected
  then show ?thesis by auto
next
  case (unsigned c0 r c')
  with assms(3) have "c0 = c" by simp
  with not_signed_enough_effect [OF unsigned(5)] assms(2) show ?thesis
    by (auto split: if_splits)
next
  case (verified c0 r c')
  with assms(3) have "c0 = c" by simp
  with install_verified_effect [OF verified(5)] assms(2) show ?thesis
    by auto
qed

text \<open>
  What is written, for every accepted document that did not come from the cache: the
  bytes as received with every byte XORed with 0xAA, of the same length and, unless the
  document is empty, not the bytes as received.
\<close>

lemma cache_file_is_xor_of_body:
  assumes "networkstatus_set_current_consensus e s body fn flags = Inr (rv, out, s')"
    and "\<not> NSSET_FROM_CACHE flags"
    and "networkstatus_parse_vote_from_string e body = Some c"
  shows "(out = Consensus_set \<longrightarrow> files s' (cached_fname e (flavor c)) = Some (xor_encrypt body))
       \<and> (out = Waiting_for_certs
            \<longrightarrow> files s' (unverified_fname e (flavor c)) = Some (xor_encrypt body))
       \<and> length (xor_encrypt body) = length body
       \<and> (\<forall>i<length body. xor_encrypt body ! i = body ! i XOR 0xAA)
       \<and> (body \<noteq> [] \<longrightarrow> xor_encrypt body \<noteq> body)"
proof -
  have bytes: "length (xor_encrypt body) = length body
       \<and> (\<forall>i<length body. xor_encrypt body ! i = body ! i XOR 0xAA)"
    by (simp add: xor_encrypt_def simple_key_def)
  from accepted_body_written [OF assms] bytes xor_encrypt_changes [of body] show ?thesis
    by blast
qed

text \<open>
  C1, the code at two documents received from the network. The document with the bytes
  32 30 verifies and is installed: the cached file of its flavor then holds 98 9A, and
  \<open>networkstatus_map_cached_consensus\<close>, which reads that file for the rest of the
  program without decoding it, returns 98 9A. The document with the bytes 34 30 is
  parked awaiting certificates: the unverified file holds 9E 9A. In both cases the file
  is not the signed document as received.
\<close>

theorem cache_files_hold_obfuscated_bytes:
  "body_2000 = [0x32, 0x30]
   \<and> outcome_of (networkstatus_set_current_consensus (toy_env 3500) fresh_start body_2000
        ''microdesc'' from_network) = Some Consensus_set
   \<and> files_of_result (networkstatus_set_current_consensus (toy_env 3500) fresh_start body_2000
        ''microdesc'' from_network) ''/var/lib/tor/cached-microdesc-consensus''
       = Some (Some [0x98, 0x9A])
   \<and> map_option (\<lambda>s. networkstatus_map_cached_consensus (toy_env 3500) (files s) ''microdesc'')
         (state_of (networkstatus_set_current_consensus (toy_env 3500) fresh_start body_2000
            ''microdesc'' from_network))
       = Some (Some [0x98, 0x9A])
   \<and> body_4000 = [0x34, 0x30]
   \<and> outcome_of (networkstatus_set_current_consensus (toy_env 3500) fresh_start body_4000
        ''microdesc'' from_network) = Some Waiting_for_certs
   \<and> files_of_result (networkstatus_set_current_consensus (toy_env 3500) fresh_start body_4000
        ''microdesc'' from_network) ''/var/lib/tor/unverified-microdesc-consensus''
       = Some (Some [0x9E, 0x9A])"
  by code_simp

lemma step_parked_newer:
  assumes step: "networkstatus_set_current_consensus e s body fn flags = Inr (rv, out, s')"
    and inv: "parked_newer s"
  shows "parked_newer s'"
  using step
proof (cases rule: step_elim)
  case rejected
  with inv show ?thesis by simp
next
  case (unsigned c r c')
  note eff = not_signed_enough_effect [OF unsigned(5)]
  note keep = check_signature_keeps_fields [OF unsigned(3)]
  show ?thesis
  proof (cases "flavor c")
    case FLAV_NS
    with eff keep unsigned(2) inv show ?thesis
      by (auto simp: parked_newer_def parked_newer_at_def parked_def
                     networkstatus_get_latest_consensus_by_flavor_def
               split: if_splits option.splits)
  next
    case FLAV_MICRODESC
    with eff keep unsigned(2) inv show ?thesis
      by (auto simp: parked_newer_def parked_newer_at_def parked_def
                     networkstatus_get_latest_consensus_by_flavor_def
               split: if_splits option.splits)
  qed
next
  case (verified c r c')
  note eff = install_verified_effect [OF verified(5)]
  note keep = check_signature_keeps_fields [OF verified(3)]
  show ?thesis
  proof (cases "flavor c")
    case FLAV_NS
    with eff keep inv show ?thesis
      by (auto simp: parked_newer_def parked_newer_at_def parked_def
               split: if_splits option.splits)
  next
    case FLAV_MICRODESC
    with eff keep inv show ?thesis
      by (auto simp: parked_newer_def parked_newer_at_def parked_def
               split: if_splits option.splits)
  qed
qed

lemma step_parks:
  assumes step: "networkstatus_set_current_consensus e s body fn flags = Inr (rv, out, s')"
    and parse: "networkstatus_parse_vote_from_string e body = Some c"
  shows "out \<noteq> Never_the_latest
   \<and> (out = Waiting_for_certs)
       = (out \<notin> {Unrecognized_flavor, Unparseable, Unexpected_flavor, Uninteresting_flavor,
                   Expired_from_cache, Already_have, At_least_as_old}
          \<and> (\<exists>c'. networkstatus_check_consensus_signature e c = Inr (- 1, c')))
   \<and> (out = Waiting_for_certs
        \<longrightarrow> (\<exists>c'. networkstatus_check_consensus_signature e c = Inr (- 1, c')
                  \<and> consensus_waiting_for_certs s' (flavor c)
                      = \<lparr>consensus = Some c', set_at = approx_time e, dl_failed = 0\<rparr>
                  \<and> valid_after c' = valid_after c)
            \<and> (case networkstatus_get_latest_consensus_by_flavor s (flavor c) of
                   None \<Rightarrow> True
                 | Some cur \<Rightarrow> valid_after cur = 0 \<or> valid_after cur < valid_after c))"
  using step
proof (cases rule: step_elim)
  case rejected
  then show ?thesis by auto
next
  case (unsigned c0 r c')
  with parse have c0: "c0 = c" by simp
  note eff = not_signed_enough_effect [OF unsigned(5)]
  note keep = check_signature_keeps_fields [OF unsigned(3)]
  from unsigned(2) keep c0
  have cond: "(case networkstatus_get_latest_consensus_by_flavor s (flavor c) of
                 None \<Rightarrow> 0 | Some x \<Rightarrow> valid_after x) = 0
              \<or> (case networkstatus_get_latest_consensus_by_flavor s (flavor c) of
                   None \<Rightarrow> 0 | Some x \<Rightarrow> valid_after x) < valid_after c'"
    by (auto split: option.splits)
  show ?thesis
  proof (cases "r = - 1")
    case True
    with eff cond c0 unsigned(2,3) keep show ?thesis
      by (auto split: option.splits)
  next
    case False
    with eff c0 unsigned(3) show ?thesis by auto
  qed
next
  case (verified c0 r c')
  with parse have c0: "c0 = c" by simp
  from install_verified_effect [OF verified(5)] verified(3,4) c0 show ?thesis by auto
qed


text \<open>
  C5 (as amended). A document that reaches validation and validates as NeedsMoreCerts is
  always parked: it replaces the document parked for its flavor whatever that
  document's valid-after is, and the newcomer is never discarded in favour of the parked
  one (the branch that would discard it is never taken: the only comparison is with the
  installed document, and a document that is not newer than the installed one was
  rejected before validation). So the parked document's valid-after can decrease. When
  a document is parked and one is installed for the same flavor with a valid-after
  other than 0, the parked one's valid-after is strictly greater: every call keeps
  that.
\<close>

theorem parking_compares_with_current_only:
  assumes "networkstatus_set_current_consensus e s body fn flags = Inr (rv, out, s')"
    and "networkstatus_parse_vote_from_string e body = Some c"
  shows "out \<noteq> Never_the_latest
   \<and> (out = Waiting_for_certs)
       = (out \<notin> {Unrecognized_flavor, Unparseable, Unexpected_flavor, Uninteresting_flavor,
                   Expired_from_cache, Already_have, At_least_as_old}
          \<and> (\<exists>c'. networkstatus_check_consensus_signature e c = Inr (- 1, c')))
   \<and> (out = Waiting_for_certs
        \<longrightarrow> (\<exists>c'. networkstatus_check_consensus_signature e c = Inr (- 1, c')
                  \<and> consensus_waiting_for_certs s' (flavor c)
                      = \<lparr>consensus = Some c', set_at = approx_time e, dl_failed = 0\<rparr>
                  \<and> valid_after c' = valid_after c)
            \<and> (case networkstatus_get_latest_consensus_by_flavor s (flavor c) of
                   None \<Rightarrow> True
                 | Some cur \<Rightarrow> valid_after cur = 0 \<or> valid_after cur < valid_after c))
   \<and> (parked_newer s \<longrightarrow> parked_newer s')"
  using step_parks [OF assms] step_parked_newer [OF assms(1)]
  by blast

theorem parking_compares_with_current_only_witness:
  "\<exists>s'. state_of (networkstatus_set_current_consensus (toy_env 3500) holding_and_parked
               body_4000 ''microdesc'' from_network) = Some s'
        \<and> parked_newer s'
        \<and> consensus_waiting_for_certs s' FLAV_MICRODESC
            = \<lparr>consensus = Some (doc 4000 ''K2'' digest_a), set_at = 3500, dl_failed = 0\<rparr>"
proof -
  have o: "outcome_of (networkstatus_set_current_consensus (toy_env 3500) holding_and_parked
             body_4000 ''microdesc'' from_network) = Some Waiting_for_certs"
    by code_simp
  then obtain rv s' where
    r: "networkstatus_set_current_consensus (toy_env 3500) holding_and_parked body_4000
          ''microdesc'' from_network = Inr (rv, Waiting_for_certs, s')"
    by (auto simp: outcome_of_def split: sum.splits)
  have p: "networkstatus_parse_vote_from_string (toy_env 3500) body_4000
             = Some (doc 4000 ''K2'' digest_a)"
    by code_simp
  have i: "parked_newer holding_and_parked"
    by code_simp
  have v: "networkstatus_check_consensus_signature (toy_env 3500) (doc 4000 ''K2'' digest_a)
             = Inr (- 1, doc 4000 ''K2'' digest_a)"
    by code_simp
  have f: "flavor (doc 4000 ''K2'' digest_a) = FLAV_MICRODESC"
    and t: "approx_time (toy_env 3500) = 3500"
    by code_simp+
  from parking_compares_with_current_only [OF r p] i v f t
  have "parked_newer s'
        \<and> consensus_waiting_for_certs s' FLAV_MICRODESC
            = \<lparr>consensus = Some (doc 4000 ''K2'' digest_a), set_at = 3500, dl_failed = 0\<rparr>"
    by auto
  with r show ?thesis by (simp add: state_of_def)
qed

text \<open>
  The claim C5 as written has a newcomer replace the parked document only when the
  parked one is strictly older. Document 5000 is parked and document 3000 installed; the
  document 4000 arrives and validates as NeedsMoreCerts: it is parked in place of
  document 5000, and the valid-after of the parked document goes down from 5000 to
  4000.
\<close>

theorem parked_replaced_by_older_counterexample:
  "map_option valid_after (parked holding_and_parked FLAV_MICRODESC) = Some 5000
   \<and> map_option valid_after (networkstatus_parse_vote_from_string (toy_env 3500) body_4000)
       = Some 4000
   \<and> verdict_of (networkstatus_check_consensus_signature (toy_env 3500)
         (doc 4000 ''K2'' digest_a)) = Some (- 1)
   \<and> outcome_of (networkstatus_set_current_consensus (toy_env 3500) holding_and_parked
         body_4000 ''microdesc'' from_network) = Some Waiting_for_certs
   \<and> map_option (\<lambda>s. map_option valid_after (parked s FLAV_MICRODESC))
         (state_of (networkstatus_set_current_consensus (toy_env 3500) holding_and_parked
            body_4000 ''microdesc'' from_network))
       = Some (Some 4000)"
  by code_simp



section \<open>The cache round trip\<close>

lemma strstr_append: "strstr ys needle \<Longrightarrow> strstr (xs @ ys) needle"
proof (induction xs)
  case Nil
  then show ?case by simp
next
  case (Cons x xs)
  then show ?case by simp
qed

lemma cached_fname_has_consensus: "strstr (cached_fname e flav) ''consensus''"
  by (cases flav)
     (simp_all add: cached_fname_def networkstatus_get_cache_fname_def get_cachedir_fname_def
        networkstatus_get_flavor_name_def strstr_append)

lemma xor_key_twice: "((b::8 word) XOR k) XOR k = b"
  by (simp add: xor.assoc)

lemma xor_twice: "map (\<lambda>b. b XOR simple_key) (xor_encrypt body) = body"
  by (induction body) (simp_all add: xor_encrypt_def xor_key_twice)

lemma maybe_decrypt_encoded:
  assumes "strstr fname ''consensus''" and "fs fname = Some (xor_encrypt body)"
  shows "maybe_decrypt_consensus_file fs fname =
           (if body = [] then (None, fs)
            else (Some (fname @ ''.tmp''), fs(fname @ ''.tmp'' \<mapsto> body)))"
  using assms
  by (simp add: maybe_decrypt_consensus_file_def xor_twice Let_def) (simp add: xor_encrypt_def)

lemma reload_encoded:
  assumes "strstr fname ''consensus''" and "files s fname = Some (xor_encrypt body)"
    and "body \<noteq> []"
  shows "reload_consensus_from_file e s fname fn flags =
           (case networkstatus_set_current_consensus e
                   (s\<lparr>files := (files s)(fname @ ''.tmp'' \<mapsto> body)\<rparr>) body fn flags of
              Inl f \<Rightarrow> Inl f
            | Inr (rv, out, s') \<Rightarrow>
                Inr (rv,
                     s'\<lparr>files :=
                          unlink (unlink (files s') ''/home/mahdi/.tor/unverified-consensus.tmp'')
                            ''/home/mahdi/.tor/cached-consensus.tmp''\<rparr>))"
  using assms
  by (simp add: reload_consensus_from_file_def maybe_decrypt_encoded tor_mmap_file_def)

lemma step_from_empty_registry:
  assumes step: "networkstatus_set_current_consensus e s body fn flags = Inr (rv, out, s')"
    and empty: "current_ns_consensus s = None" "current_md_consensus s = None"
    and parse: "networkstatus_parse_vote_from_string e body = Some c"
    and cur: "networkstatus_get_latest_consensus_by_flavor s' f = Some d"
  shows "f = flavor c \<and> digests d = digests c \<and> out = Consensus_set"
  using step
proof (cases rule: step_elim)
  case rejected
  with empty cur show ?thesis
    by (simp add: networkstatus_get_latest_consensus_by_flavor_def split: consensus_flavor.splits)
next
  case (unsigned c0 r c')
  from not_signed_enough_effect [OF unsigned(5)] empty cur show ?thesis
    by (simp add: networkstatus_get_latest_consensus_by_flavor_def split: consensus_flavor.splits)
next
  case (verified c0 r c')
  with parse have c0: "c0 = c" by simp
  note eff = install_verified_effect [OF verified(5)]
  note keep = check_signature_keeps_fields [OF verified(3)]
  have other: "f \<noteq> flavor c \<Longrightarrow> networkstatus_get_latest_consensus_by_flavor s f = Some d"
    using eff cur c0 by auto
  have "f = flavor c"
  proof (rule ccontr)
    assume "f \<noteq> flavor c"
    from other [OF this] empty show False
      by (simp add: networkstatus_get_latest_consensus_by_flavor_def
               split: consensus_flavor.splits)
  qed
  with eff keep cur c0 show ?thesis by auto
qed

lemma parse_get_flavor_name:
  "networkstatus_parse_flavor_name (networkstatus_get_flavor_name flav) = Some flav"
  by (cases flav)
     (simp_all add: networkstatus_parse_flavor_name_def networkstatus_get_flavor_name_def)

lemma accepted_from_cache:
  assumes empty: "current_ns_consensus s = None" "current_md_consensus s = None"
    and parse: "networkstatus_parse_vote_from_string e body = Some c"
    and flags: "NSSET_FROM_CACHE flags" "\<not> NSSET_WAS_WAITING_FOR_CERTS flags"
    and wanted: "flavor c = usable_consensus_flavor e \<or> we_want_to_fetch_flavor e (flavor c)"
    and fresh: "\<not> (\<not> NSSET_ACCEPT_OBSOLETE flags
                   \<and> valid_until c < approx_time e - OLD_ROUTER_DESC_MAX_AGE e)"
    and gate: "\<not> protocols_should_exit e c"
    and sigs: "networkstatus_check_consensus_signature e c = Inr (r, c')" "0 \<le> r"
  shows "\<exists>s'. networkstatus_set_current_consensus e s body
                (networkstatus_get_flavor_name (flavor c)) flags = Inr (0, Consensus_set, s')
              \<and> networkstatus_get_latest_consensus_by_flavor s' (flavor c) = Some c'"
proof -
  have cur: "networkstatus_get_latest_consensus_by_flavor s (flavor c) = None"
    using empty
    by (simp add: networkstatus_get_latest_consensus_by_flavor_def split: consensus_flavor.splits)
  have step: "networkstatus_set_current_consensus e s body
                (networkstatus_get_flavor_name (flavor c)) flags
              = install_verified e s body flags (flavor c) (cached_fname e (flavor c))
                  (unverified_fname e (flavor c)) c'"
    unfolding set_current_consensus_unfold replace_current_unfold Let_def
    using parse flags wanted fresh gate sigs cur
    by (auto simp: parse_get_flavor_name)
  obtain s' where inst: "install_verified e s body flags (flavor c) (cached_fname e (flavor c))
                           (unverified_fname e (flavor c)) c' = Inr (0, Consensus_set, s')"
    using flags by (simp add: install_verified_def Let_def)
  from install_verified_effect [OF inst] step inst show ?thesis by auto
qed

lemma registry_ignores_files:
  "networkstatus_get_latest_consensus_by_flavor (s\<lparr>files := fs\<rparr>) f
     = networkstatus_get_latest_consensus_by_flavor s f"
  by (simp add: networkstatus_get_latest_consensus_by_flavor_def split: consensus_flavor.splits)

lemma cached_fname_cachedir: "cachedir e2 = cachedir e \<Longrightarrow> cached_fname e2 flav = cached_fname e flav"
  by (simp add: cached_fname_def networkstatus_get_cache_fname_def get_cachedir_fname_def
                Let_def)

lemma consensus_set_conditions:
  assumes "networkstatus_set_current_consensus e s body fn flags = Inr (rv, Consensus_set, s')"
    and "networkstatus_parse_vote_from_string e body = Some c"
  shows "\<not> (NSSET_FROM_CACHE flags \<and> \<not> NSSET_WAS_WAITING_FOR_CERTS flags
             \<and> protocols_should_exit e c)
       \<and> (flavor c = usable_consensus_flavor e \<or> we_want_to_fetch_flavor e (flavor c))
       \<and> \<not> (NSSET_FROM_CACHE flags \<and> \<not> NSSET_ACCEPT_OBSOLETE flags
                \<and> valid_until c < approx_time e - OLD_ROUTER_DESC_MAX_AGE e)
       \<and> (\<exists>r c'. networkstatus_check_consensus_signature e c = Inr (r, c') \<and> 0 \<le> r)"
proof -
  have gate: "\<not> (NSSET_FROM_CACHE flags \<and> \<not> NSSET_WAS_WAITING_FOR_CERTS flags
                  \<and> protocols_should_exit e c)
       \<and> (flavor c = usable_consensus_flavor e \<or> we_want_to_fetch_flavor e (flavor c))
       \<and> \<not> (NSSET_FROM_CACHE flags \<and> \<not> NSSET_ACCEPT_OBSOLETE flags
                \<and> valid_until c < approx_time e - OLD_ROUTER_DESC_MAX_AGE e)"
    using assms unfolding set_current_consensus_unfold
    by (auto split: option.splits if_splits)
  from assms(1) have sigs: "\<exists>r c'. networkstatus_check_consensus_signature e c = Inr (r, c')
                                 \<and> 0 \<le> r"
  proof (cases rule: step_elim)
    case rejected
    then show ?thesis by simp
  next
    case (unsigned c0 r c')
    from not_signed_enough_effect [OF unsigned(5)] show ?thesis
      by (auto split: if_splits)
  next
    case (verified c0 r c')
    with assms(2) show ?thesis by auto
  qed
  from gate sigs show ?thesis by blast
qed

text \<open>
  C6 (as amended). A document is installed not-from-cache, so that its flavor's
  cached-consensus file is written. The process starts again with an empty registry and
  that file, and reloads from it (same parser, same cache directory, any clock,
  certificates and options). Then every document the registry holds after the reload is
  of the flavor of the original and has the digests of the original. A reload from the
  cache leaves a document in the registry exactly when, at the reload, the document is
  not empty, is still wanted, has a valid-until not older than the maximum age (or
  obsolete documents are accepted), passes the protocol gate and has enough signatures;
  the reload then returns 0 and the registry holds the document, with the digests of the
  original. Otherwise the registry stays empty.
\<close>

theorem cache_round_trip:
  assumes inst: "networkstatus_set_current_consensus e s body fn flags
                   = Inr (rv, Consensus_set, s1)"
    and net: "\<not> NSSET_FROM_CACHE flags"
    and parse: "networkstatus_parse_vote_from_string e body = Some c"
    and restart: "current_ns_consensus s2 = None \<and> current_md_consensus s2 = None
                  \<and> files s2 (cached_fname e (flavor c)) = files s1 (cached_fname e (flavor c))"
    and env: "networkstatus_parse_vote_from_string e2 = networkstatus_parse_vote_from_string e
              \<and> cachedir e2 = cachedir e"
  shows "(reload_consensus_from_file e2 s2 (cached_fname e2 (flavor c))
            (networkstatus_get_flavor_name (flavor c)) flags2 = Inr (rv2, s3)
          \<longrightarrow> (\<forall>f d. networkstatus_get_latest_consensus_by_flavor s3 f = Some d
                     \<longrightarrow> f = flavor c \<and> digests d = digests c))
       \<and> (NSSET_FROM_CACHE flags2 \<and> \<not> NSSET_WAS_WAITING_FOR_CERTS flags2
          \<longrightarrow> (\<exists>rv3 s4 d. reload_consensus_from_file e2 s2 (cached_fname e2 (flavor c))
                             (networkstatus_get_flavor_name (flavor c)) flags2 = Inr (rv3, s4)
                           \<and> networkstatus_get_latest_consensus_by_flavor s4 (flavor c) = Some d)
              = (body \<noteq> []
                 \<and> (flavor c = usable_consensus_flavor e2 \<or> we_want_to_fetch_flavor e2 (flavor c))
                 \<and> \<not> (\<not> NSSET_ACCEPT_OBSOLETE flags2
                        \<and> valid_until c < approx_time e2 - OLD_ROUTER_DESC_MAX_AGE e2)
                 \<and> \<not> protocols_should_exit e2 c
                 \<and> (\<exists>r0 c0. networkstatus_check_consensus_signature e2 c = Inr (r0, c0)
                               \<and> 0 \<le> r0)))
       \<and> (body \<noteq> [] \<and> NSSET_FROM_CACHE flags2 \<and> \<not> NSSET_WAS_WAITING_FOR_CERTS flags2
            \<and> (flavor c = usable_consensus_flavor e2 \<or> we_want_to_fetch_flavor e2 (flavor c))
            \<and> \<not> (\<not> NSSET_ACCEPT_OBSOLETE flags2
                   \<and> valid_until c < approx_time e2 - OLD_ROUTER_DESC_MAX_AGE e2)
            \<and> \<not> protocols_should_exit e2 c
            \<and> networkstatus_check_consensus_signature e2 c = Inr (r, c') \<and> 0 \<le> r
          \<longrightarrow> (\<exists>s3. reload_consensus_from_file e2 s2 (cached_fname e2 (flavor c))
                        (networkstatus_get_flavor_name (flavor c)) flags2 = Inr (0, s3)
                     \<and> networkstatus_get_latest_consensus_by_flavor s3 (flavor c) = Some c'
                     \<and> digests c' = digests c))"
proof -
  let ?fname = "cached_fname e (flavor c)"
  let ?name = "networkstatus_get_flavor_name (flavor c)"
  let ?s2 = "s2\<lparr>files := (files s2)(?fname @ ''.tmp'' \<mapsto> body)\<rparr>"
  have fname2: "cached_fname e2 (flavor c) = ?fname"
    using env by (intro cached_fname_cachedir) simp
  have parse2: "networkstatus_parse_vote_from_string e2 body = Some c"
    using env parse by simp
  have written: "files s1 ?fname = Some (xor_encrypt body)"
    using accepted_body_written [OF inst net parse] by simp
  with restart have disk: "files s2 ?fname = Some (xor_encrypt body)" by simp
  have has: "strstr ?fname ''consensus''" by (rule cached_fname_has_consensus)
  have empty2: "current_ns_consensus ?s2 = None" "current_md_consensus ?s2 = None"
    using restart by simp_all
  have inner: "body \<noteq> []
               \<and> (\<exists>out s'. networkstatus_set_current_consensus e2 ?s2 body ?name fl
                               = Inr (rv0, out, s')
                            \<and> networkstatus_get_latest_consensus_by_flavor s' f = Some d)"
    if rel: "reload_consensus_from_file e2 s2 ?fname ?name fl = Inr (rv0, s0)"
      and cur: "networkstatus_get_latest_consensus_by_flavor s0 f = Some d"
    for fl rv0 s0 f d
  proof -
    have ne: "body \<noteq> []"
    proof
      assume "body = []"
      with has disk rel show False
        by (simp add: reload_consensus_from_file_def maybe_decrypt_encoded)
    qed
    from rel reload_encoded [OF has disk ne, of e2 ?name fl]
    obtain out s' where
      step: "networkstatus_set_current_consensus e2 ?s2 body ?name fl = Inr (rv0, out, s')"
      and s0: "s0 = s'\<lparr>files :=
                 unlink (unlink (files s') ''/home/mahdi/.tor/unverified-consensus.tmp'')
                   ''/home/mahdi/.tor/cached-consensus.tmp''\<rparr>"
      by (auto split: sum.splits prod.splits)
    from cur s0 have "networkstatus_get_latest_consensus_by_flavor s' f = Some d"
      by (simp add: registry_ignores_files)
    with ne step show ?thesis by blast
  qed
  have loaded: "f = flavor c \<and> digests d = digests c"
    if rel: "reload_consensus_from_file e2 s2 ?fname ?name flags2 = Inr (rv2, s3)"
      and cur: "networkstatus_get_latest_consensus_by_flavor s3 f = Some d"
    for f d
  proof -
    from inner [OF rel cur] obtain out s' where
      step: "networkstatus_set_current_consensus e2 ?s2 body ?name flags2 = Inr (rv2, out, s')"
      and cur': "networkstatus_get_latest_consensus_by_flavor s' f = Some d"
      by blast
    from step_from_empty_registry [OF step empty2 parse2 cur'] show ?thesis by simp
  qed
  have accepted: "\<exists>s3. reload_consensus_from_file e2 s2 ?fname ?name flags2 = Inr (0, s3)
                 \<and> networkstatus_get_latest_consensus_by_flavor s3 (flavor c) = Some c1
                 \<and> digests c1 = digests c"
    if ne: "body \<noteq> []"
      and fl: "NSSET_FROM_CACHE flags2" "\<not> NSSET_WAS_WAITING_FOR_CERTS flags2"
      and wanted: "flavor c = usable_consensus_flavor e2 \<or> we_want_to_fetch_flavor e2 (flavor c)"
      and fresh: "\<not> (\<not> NSSET_ACCEPT_OBSOLETE flags2
                     \<and> valid_until c < approx_time e2 - OLD_ROUTER_DESC_MAX_AGE e2)"
      and gate: "\<not> protocols_should_exit e2 c"
      and sigs: "networkstatus_check_consensus_signature e2 c = Inr (r1, c1)" "0 \<le> r1"
    for r1 c1
  proof -
    from accepted_from_cache [OF empty2 parse2 fl wanted fresh gate sigs]
    obtain s' where
      step: "networkstatus_set_current_consensus e2 ?s2 body ?name flags2
               = Inr (0, Consensus_set, s')"
      and cur: "networkstatus_get_latest_consensus_by_flavor s' (flavor c) = Some c1"
      by blast
    from reload_encoded [OF has disk ne, of e2 ?name flags2] step cur
         check_signature_keeps_fields [OF sigs(1)]
    show ?thesis by (simp add: registry_ignores_files)
  qed
  have needed: "body \<noteq> []
       \<and> (flavor c = usable_consensus_flavor e2 \<or> we_want_to_fetch_flavor e2 (flavor c))
       \<and> \<not> (\<not> NSSET_ACCEPT_OBSOLETE flags2
                \<and> valid_until c < approx_time e2 - OLD_ROUTER_DESC_MAX_AGE e2)
       \<and> \<not> protocols_should_exit e2 c
       \<and> (\<exists>r0 c0. networkstatus_check_consensus_signature e2 c = Inr (r0, c0) \<and> 0 \<le> r0)"
    if fl: "NSSET_FROM_CACHE flags2" "\<not> NSSET_WAS_WAITING_FOR_CERTS flags2"
      and rel: "reload_consensus_from_file e2 s2 ?fname ?name flags2 = Inr (rv3, s4)"
      and cur: "networkstatus_get_latest_consensus_by_flavor s4 (flavor c) = Some d"
    for rv3 s4 d
  proof -
    from inner [OF rel cur] obtain out s' where
      ne: "body \<noteq> []"
      and step: "networkstatus_set_current_consensus e2 ?s2 body ?name flags2
                   = Inr (rv3, out, s')"
      and cur': "networkstatus_get_latest_consensus_by_flavor s' (flavor c) = Some d"
      by blast
    from step_from_empty_registry [OF step empty2 parse2 cur'] have "out = Consensus_set"
      by simp
    with step have "networkstatus_set_current_consensus e2 ?s2 body ?name flags2
                      = Inr (rv3, Consensus_set, s')" by simp
    from consensus_set_conditions [OF this parse2] fl ne show ?thesis by blast
  qed
  have exactly: "(\<exists>rv3 s4 d. reload_consensus_from_file e2 s2 ?fname ?name flags2 = Inr (rv3, s4)
                     \<and> networkstatus_get_latest_consensus_by_flavor s4 (flavor c) = Some d)
       = (body \<noteq> []
          \<and> (flavor c = usable_consensus_flavor e2 \<or> we_want_to_fetch_flavor e2 (flavor c))
          \<and> \<not> (\<not> NSSET_ACCEPT_OBSOLETE flags2
                 \<and> valid_until c < approx_time e2 - OLD_ROUTER_DESC_MAX_AGE e2)
          \<and> \<not> protocols_should_exit e2 c
          \<and> (\<exists>r0 c0. networkstatus_check_consensus_signature e2 c = Inr (r0, c0) \<and> 0 \<le> r0))"
    if fl: "NSSET_FROM_CACHE flags2" "\<not> NSSET_WAS_WAITING_FOR_CERTS flags2"
  proof
    assume "\<exists>rv3 s4 d. reload_consensus_from_file e2 s2 ?fname ?name flags2 = Inr (rv3, s4)
                     \<and> networkstatus_get_latest_consensus_by_flavor s4 (flavor c) = Some d"
    then obtain rv3 s4 d where
      "reload_consensus_from_file e2 s2 ?fname ?name flags2 = Inr (rv3, s4)"
      "networkstatus_get_latest_consensus_by_flavor s4 (flavor c) = Some d"
      by blast
    from needed [OF fl this] show "body \<noteq> []
          \<and> (flavor c = usable_consensus_flavor e2 \<or> we_want_to_fetch_flavor e2 (flavor c))
          \<and> \<not> (\<not> NSSET_ACCEPT_OBSOLETE flags2
                 \<and> valid_until c < approx_time e2 - OLD_ROUTER_DESC_MAX_AGE e2)
          \<and> \<not> protocols_should_exit e2 c
          \<and> (\<exists>r0 c0. networkstatus_check_consensus_signature e2 c = Inr (r0, c0) \<and> 0 \<le> r0)" .
  next
    assume pre: "body \<noteq> []
          \<and> (flavor c = usable_consensus_flavor e2 \<or> we_want_to_fetch_flavor e2 (flavor c))
          \<and> \<not> (\<not> NSSET_ACCEPT_OBSOLETE flags2
                 \<and> valid_until c < approx_time e2 - OLD_ROUTER_DESC_MAX_AGE e2)
          \<and> \<not> protocols_should_exit e2 c
          \<and> (\<exists>r0 c0. networkstatus_check_consensus_signature e2 c = Inr (r0, c0) \<and> 0 \<le> r0)"
    then obtain r0 c0 where
      "networkstatus_check_consensus_signature e2 c = Inr (r0, c0)" "0 \<le> r0" by blast
    with pre fl accepted [of r0 c0]
    show "\<exists>rv3 s4 d. reload_consensus_from_file e2 s2 ?fname ?name flags2 = Inr (rv3, s4)
                     \<and> networkstatus_get_latest_consensus_by_flavor s4 (flavor c) = Some d"
      by blast
  qed
  from loaded exactly accepted show ?thesis unfolding fname2 by blast
qed

theorem cache_round_trip_witness:
  "\<exists>s1. state_of (networkstatus_set_current_consensus (toy_env 3500) fresh_start body_2000
               ''microdesc'' from_network) = Some s1
        \<and> (\<exists>s3. reload_consensus_from_file (toy_env 4000) (restarted s1)
                     ''/var/lib/tor/cached-microdesc-consensus'' ''microdesc'' from_cache_flags
                   = Inr (0, s3)
                 \<and> map_option digests
                       (networkstatus_get_latest_consensus_by_flavor s3 FLAV_MICRODESC)
                     = Some \<lparr>d_sha1 = digest_a, d_sha256 = digest_a\<rparr>)"
proof -
  let ?c = "doc 2000 ''K'' digest_a"
  let ?c' = "?c\<lparr>voters := [(voter_a ''K'' digest_a)
                \<lparr>sigs := [(sig_by ''K'' digest_a)\<lparr>good_signature := True\<rparr>]\<rparr>]\<rparr>"
  have o: "outcome_of (networkstatus_set_current_consensus (toy_env 3500) fresh_start
             body_2000 ''microdesc'' from_network) = Some Consensus_set"
    by code_simp
  then obtain rv s1 where
    r: "networkstatus_set_current_consensus (toy_env 3500) fresh_start body_2000
          ''microdesc'' from_network = Inr (rv, Consensus_set, s1)"
    by (auto simp: outcome_of_def split: sum.splits)
  have net: "\<not> NSSET_FROM_CACHE from_network" by code_simp
  have p: "networkstatus_parse_vote_from_string (toy_env 3500) body_2000 = Some ?c"
    by code_simp
  have restart: "current_ns_consensus (restarted s1) = None
                 \<and> current_md_consensus (restarted s1) = None
                 \<and> files (restarted s1) (cached_fname (toy_env 3500) (flavor ?c))
                     = files s1 (cached_fname (toy_env 3500) (flavor ?c))"
    by (simp add: restarted_def)
  have env: "networkstatus_parse_vote_from_string (toy_env 4000)
               = networkstatus_parse_vote_from_string (toy_env 3500)
             \<and> cachedir (toy_env 4000) = cachedir (toy_env 3500)"
    by (simp add: toy_env_def)
  have v: "networkstatus_check_consensus_signature (toy_env 4000) ?c = Inr (1, ?c')"
    by code_simp
  have pre: "body_2000 \<noteq> [] \<and> NSSET_FROM_CACHE from_cache_flags
             \<and> \<not> NSSET_WAS_WAITING_FOR_CERTS from_cache_flags
             \<and> (flavor ?c = usable_consensus_flavor (toy_env 4000)
                  \<or> we_want_to_fetch_flavor (toy_env 4000) (flavor ?c))
             \<and> \<not> (\<not> NSSET_ACCEPT_OBSOLETE from_cache_flags
                     \<and> valid_until ?c
                         < approx_time (toy_env 4000) - OLD_ROUTER_DESC_MAX_AGE (toy_env 4000))
             \<and> \<not> protocols_should_exit (toy_env 4000) ?c"
    by code_simp
  have n: "cached_fname (toy_env 4000) FLAV_MICRODESC
             = ''/var/lib/tor/cached-microdesc-consensus''"
    and m: "networkstatus_get_flavor_name FLAV_MICRODESC = ''microdesc''"
    and f: "flavor ?c = FLAV_MICRODESC"
    and d: "digests ?c' = \<lparr>d_sha1 = digest_a, d_sha256 = digest_a\<rparr>"
    by code_simp+
  from cache_round_trip [OF r net p restart env, of from_cache_flags 0 s1 1 ?c'] pre v
  have "\<exists>s3. reload_consensus_from_file (toy_env 4000) (restarted s1)
               (cached_fname (toy_env 4000) (flavor ?c))
               (networkstatus_get_flavor_name (flavor ?c)) from_cache_flags = Inr (0, s3)
             \<and> networkstatus_get_latest_consensus_by_flavor s3 (flavor ?c) = Some ?c'
             \<and> digests ?c' = digests ?c"
    by simp
  then obtain s3 where
    "reload_consensus_from_file (toy_env 4000) (restarted s1)
       ''/var/lib/tor/cached-microdesc-consensus'' ''microdesc'' from_cache_flags = Inr (0, s3)"
    "map_option digests (networkstatus_get_latest_consensus_by_flavor s3 FLAV_MICRODESC)
       = Some \<lparr>d_sha1 = digest_a, d_sha256 = digest_a\<rparr>"
    unfolding f n m using d by auto
  with r show ?thesis by (auto simp: state_of_def)
qed

text \<open>
  The claim C6 as written has every such reload yield the document. The expiry check
  applies only to documents from the cache: at the time 500000 the document 2000, valid
  until 12800, is installed from the network and its cached file written; the process
  starts again and the reload, in the same environment, discards the document as
  expired, returns -1 and leaves both registries empty.
\<close>

theorem reload_of_expired_counterexample:
  "outcome_of (networkstatus_set_current_consensus (toy_env 500000) fresh_start body_2000
        ''microdesc'' from_network) = Some Consensus_set
   \<and> files_of_result (networkstatus_set_current_consensus (toy_env 500000) fresh_start
        body_2000 ''microdesc'' from_network) ''/var/lib/tor/cached-microdesc-consensus''
       = Some (Some [0x98, 0x9A])
   \<and> map_option returned (install_then_reload (toy_env 500000) (toy_env 500000) body_2000)
       = Some (Some (- 1))
   \<and> map_option (\<lambda>r. current_after r FLAV_MICRODESC)
         (install_then_reload (toy_env 500000) (toy_env 500000) body_2000) = Some (Some None)
   \<and> map_option (\<lambda>r. current_after r FLAV_NS)
         (install_then_reload (toy_env 500000) (toy_env 500000) body_2000) = Some (Some None)"
  by code_simp

end
